theory Spec2Isabelle
  imports Main
begin

section \<open>The real estate game: data model\<close>

text \<open>
  The engine of \<^verbatim>\<open>RealEstateGame.py\<close> keeps a list of board spaces and a dictionary
  from player names to \<^verbatim>\<open>Player\<close> objects. A property space stores its owner as a
  reference to a \<^verbatim>\<open>Player\<close> object, and the source compares owners by object
  identity, so the objects live in an explicit store: a reference is a natural number,
  \<open>heap\<close> maps references to objects and \<open>next_ref\<close> is the next unused reference.
  Python integers are unbounded, hence \<open>int\<close>.
\<close>

text \<open>
  The source has no \<^verbatim>\<open>raise\<close> statement and catches nothing: an error is an exception
  of the Python runtime (a dictionary subscript, a list subscript, a missing method) that
  leaves the method.
\<close>

datatype error = KeyError | IndexError | AttributeError

record Player =
  pname :: string
  account_balance :: int
  position :: int

text \<open>
  \<open>GoSpace payout_amount\<close> and \<open>PropertySpace rent owner\<close>. The engine builds a
  \<^verbatim>\<open>GoSpace\<close> only with the type string "GO" and a \<^verbatim>\<open>PropertySpace\<close> only with
  "Property", so the constructor determines \<open>get_space_type\<close>.
\<close>

datatype BoardSpace = GoSpace int | PropertySpace int "nat option"

record RealEstateGame =
  gameboard :: "BoardSpace list"
  players :: "(string \<times> nat) list"
  heap :: "nat \<Rightarrow> Player"
  next_ref :: nat

subsection \<open>Python containers\<close>

text \<open>
  The subscript \<^verbatim>\<open>xs[i]\<close> of a Python list, as the index it reads: \<open>i\<close> itself from 0
  up to the length, the length plus \<open>i\<close> for a negative \<open>i\<close> down to minus the length,
  and IndexError (\<open>None\<close>) outside.
\<close>

definition list_index :: "'a list \<Rightarrow> int \<Rightarrow> nat option" where
  "list_index xs i =
     (if 0 \<le> i \<and> i < int (length xs) then Some (nat i)
      else if i < 0 \<and> - int (length xs) \<le> i then Some (nat (int (length xs) + i))
      else None)"

text \<open>Assignment \<^verbatim>\<open>d[k] = v\<close> on a dictionary: an existing key keeps its place.\<close>

fun dict_set :: "('k \<times> 'v) list \<Rightarrow> 'k \<Rightarrow> 'v \<Rightarrow> ('k \<times> 'v) list" where
  "dict_set [] k v = [(k, v)]"
| "dict_set ((k', v') # kvs) k v =
     (if k' = k then (k, v) # kvs else (k', v') # dict_set kvs k v)"

subsection \<open>Class Player\<close>

definition Player_init :: "string \<Rightarrow> int \<Rightarrow> Player" where
  "Player_init nm bal = \<lparr>pname = nm, account_balance = bal, position = 0\<rparr>"

definition get_account_balance :: "Player \<Rightarrow> int" where
  "get_account_balance p = account_balance p"

definition get_position :: "Player \<Rightarrow> int" where
  "get_position p = position p"

definition add_account_balance :: "int \<Rightarrow> Player \<Rightarrow> Player" where
  "add_account_balance amount p = p\<lparr>account_balance := account_balance p + amount\<rparr>"

definition sub_account_balance :: "int \<Rightarrow> Player \<Rightarrow> Player" where
  "sub_account_balance amount p =
     (if amount - account_balance p > 0 then p\<lparr>account_balance := 0\<rparr>
      else p\<lparr>account_balance := account_balance p - amount\<rparr>)"

definition Player_move_player :: "int \<Rightarrow> int \<Rightarrow> Player \<Rightarrow> Player" where
  "Player_move_player number_of_spaces board_size p =
     (let p1 = p\<lparr>position := position p + number_of_spaces\<rparr>
      in if position p1 \<ge> board_size then p1\<lparr>position := position p1 - board_size\<rparr>
         else p1)"

subsection \<open>Classes BoardSpace, GoSpace and PropertySpace\<close>

fun get_space_type :: "BoardSpace \<Rightarrow> string" where
  "get_space_type (GoSpace _) = ''GO''"
| "get_space_type (PropertySpace _ _) = ''Property''"

text \<open>Only a \<^verbatim>\<open>GoSpace\<close> has \<^verbatim>\<open>get_payout_amount\<close>; calling it on a property space
  raises AttributeError.\<close>

fun get_payout_amount :: "BoardSpace \<Rightarrow> error + int" where
  "get_payout_amount (GoSpace payout_amount) = Inr payout_amount"
| "get_payout_amount (PropertySpace _ _) = Inl AttributeError"

fun get_owner :: "BoardSpace \<Rightarrow> error + nat option" where
  "get_owner (PropertySpace _ owner) = Inr owner"
| "get_owner (GoSpace _) = Inl AttributeError"

fun get_rent :: "BoardSpace \<Rightarrow> error + int" where
  "get_rent (PropertySpace rent _) = Inr rent"
| "get_rent (GoSpace _) = Inl AttributeError"

fun get_buy_price :: "BoardSpace \<Rightarrow> error + int" where
  "get_buy_price (PropertySpace rent _) = Inr (rent * 5)"
| "get_buy_price (GoSpace _) = Inl AttributeError"

fun new_owner :: "nat option \<Rightarrow> BoardSpace \<Rightarrow> BoardSpace" where
  "new_owner player_obj (PropertySpace rent _) = PropertySpace rent player_obj"
| "new_owner player_obj (GoSpace payout_amount) = GoSpace payout_amount"

section \<open>Class RealEstateGame\<close>

text \<open>
  An operation that can raise returns the error or its result together with the state
  it leaves behind: what was mutated before the exception stays mutated.
\<close>

definition RealEstateGame_init :: RealEstateGame where
  "RealEstateGame_init =
     \<lparr>gameboard = [], players = [], heap = (\<lambda>_. Player_init [] 0), next_ref = 0\<rparr>"

text \<open>The loop of \<open>create_spaces\<close> over \<^verbatim>\<open>range(24)\<close>: reading \<^verbatim>\<open>rent_amounts[index]\<close>
  past the end of the list raises IndexError after the earlier spaces were appended.\<close>

fun append_properties :: "nat list \<Rightarrow> int list \<Rightarrow> RealEstateGame \<Rightarrow> (error + unit) \<times> RealEstateGame" where
  "append_properties [] rent_amounts g = (Inr (), g)"
| "append_properties (index # rest) rent_amounts g =
     (if index < length rent_amounts then
        append_properties rest rent_amounts
          (g\<lparr>gameboard := gameboard g @ [PropertySpace (rent_amounts ! index) None]\<rparr>)
      else (Inl IndexError, g))"

definition create_spaces :: "int \<Rightarrow> int list \<Rightarrow> RealEstateGame \<Rightarrow> (error + unit) \<times> RealEstateGame" where
  "create_spaces go_payout rent_amounts g =
     append_properties [0..<24] rent_amounts
       (g\<lparr>gameboard := gameboard g @ [GoSpace go_payout]\<rparr>)"

definition create_player :: "string \<Rightarrow> int \<Rightarrow> RealEstateGame \<Rightarrow> RealEstateGame" where
  "create_player nm bal g =
     (if bal \<le> 0 then g
      else g\<lparr>players := dict_set (players g) nm (next_ref g),
             heap := (heap g)(next_ref g := Player_init nm bal),
             next_ref := Suc (next_ref g)\<rparr>)"

definition get_player_account_balance :: "string \<Rightarrow> RealEstateGame \<Rightarrow> error + int" where
  "get_player_account_balance player_name g =
     (case map_of (players g) player_name of
        None \<Rightarrow> Inl KeyError
      | Some player \<Rightarrow> Inr (get_account_balance (heap g player)))"

definition get_player_current_position :: "string \<Rightarrow> RealEstateGame \<Rightarrow> error + int" where
  "get_player_current_position player_name g =
     (case map_of (players g) player_name of
        None \<Rightarrow> Inl KeyError
      | Some player \<Rightarrow> Inr (get_position (heap g player)))"

text \<open>
  \<open>buy_space\<close> reads the registry first (KeyError), then the board (IndexError). The
  test \<^verbatim>\<open>space.get_space_type() != "GO"\<close> is the case distinction on the space, and the
  space bought is updated in place, at its index.
\<close>

definition buy_space :: "string \<Rightarrow> RealEstateGame \<Rightarrow> (error + bool) \<times> RealEstateGame" where
  "buy_space player_name g =
     (case map_of (players g) player_name of
        None \<Rightarrow> (Inl KeyError, g)
      | Some player \<Rightarrow>
          (case list_index (gameboard g) (get_position (heap g player)) of
             None \<Rightarrow> (Inl IndexError, g)
           | Some i \<Rightarrow>
               (case gameboard g ! i of
                  GoSpace _ \<Rightarrow> (Inr False, g)
                | PropertySpace rent owner \<Rightarrow>
                    if owner = None then
                      (case get_player_account_balance player_name g of
                         Inl e \<Rightarrow> (Inl e, g)
                       | Inr balance \<Rightarrow>
                           (case get_buy_price (PropertySpace rent owner) of
                              Inl e \<Rightarrow> (Inl e, g)
                            | Inr buy_price \<Rightarrow>
                                if balance > buy_price then
                                  (Inr True,
                                   g\<lparr>gameboard :=
                                       (gameboard g)[i := new_owner (Some player) (gameboard g ! i)],
                                     heap := (heap g)(player :=
                                       sub_account_balance buy_price (heap g player))\<rparr>)
                                else (Inr False, g)))
                    else (Inr False, g))))"

text \<open>The loop of \<open>remove_player\<close> visits every space once.\<close>

definition clear_owner :: "nat \<Rightarrow> BoardSpace \<Rightarrow> BoardSpace" where
  "clear_owner player_obj space =
     (if get_space_type space = ''Property'' \<and> get_owner space = Inr (Some player_obj)
      then new_owner None space else space)"

definition remove_player :: "nat \<Rightarrow> RealEstateGame \<Rightarrow> RealEstateGame" where
  "remove_player player_obj g =
     g\<lparr>heap := (heap g)(player_obj :=
          sub_account_balance (get_account_balance (heap g player_obj)) (heap g player_obj)),
       gameboard := map (clear_owner player_obj) (gameboard g)\<rparr>"

text \<open>
  \<open>move_player\<close> in its parts. \<open>pass_go\<close> is the payout for a new position below the
  old one; \<open>pay_rent\<close> the settlement with the owner of the space landed on;
  \<open>landing\<close> the tests that lead to it (the GO space, by the case distinction on the
  space; then an owner that is set and is not the mover); \<open>move_player\<close> the guards,
  the step on the circular board and the two parts in the source's order. An exception
  after the step leaves the new position in place.
\<close>

definition pass_go :: "int \<Rightarrow> int \<Rightarrow> nat \<Rightarrow> RealEstateGame \<Rightarrow> error + RealEstateGame" where
  "pass_go old_position new_position player g =
     (if new_position < old_position then
        (case list_index (gameboard g) 0 of
           None \<Rightarrow> Inl IndexError
         | Some i \<Rightarrow>
             (case get_payout_amount (gameboard g ! i) of
                Inl e \<Rightarrow> Inl e
              | Inr go_payout \<Rightarrow>
                  Inr (g\<lparr>heap := (heap g)(player := add_account_balance go_payout (heap g player))\<rparr>)))
      else Inr g)"

definition pay_rent :: "nat \<Rightarrow> nat \<Rightarrow> int \<Rightarrow> RealEstateGame \<Rightarrow> RealEstateGame" where
  "pay_rent player property_owner property_rent g =
     (if get_account_balance (heap g player) < property_rent then
        remove_player player
          (g\<lparr>heap := (heap g)(property_owner :=
               add_account_balance (get_account_balance (heap g player)) (heap g property_owner))\<rparr>)
      else
        (let g1 = g\<lparr>heap := (heap g)(property_owner :=
                      add_account_balance property_rent (heap g property_owner))\<rparr>
         in g1\<lparr>heap := (heap g1)(player := sub_account_balance property_rent (heap g1 player))\<rparr>))"

definition landing :: "int \<Rightarrow> nat \<Rightarrow> RealEstateGame \<Rightarrow> (error + unit) \<times> RealEstateGame" where
  "landing new_position player g =
     (case list_index (gameboard g) new_position of
        None \<Rightarrow> (Inl IndexError, g)
      | Some i \<Rightarrow>
          (case gameboard g ! i of
             GoSpace _ \<Rightarrow> (Inr (), g)
           | PropertySpace rent owner \<Rightarrow>
               (case owner of
                  None \<Rightarrow> (Inr (), g)
                | Some property_owner \<Rightarrow>
                    if property_owner \<noteq> player then
                      (case get_rent (PropertySpace rent owner) of
                         Inl e \<Rightarrow> (Inl e, g)
                       | Inr property_rent \<Rightarrow>
                           (Inr (), pay_rent player property_owner property_rent g))
                    else (Inr (), g))))"

definition move_player :: "string \<Rightarrow> int \<Rightarrow> RealEstateGame \<Rightarrow> (error + unit) \<times> RealEstateGame" where
  "move_player player_name number_of_spaces g =
     (case map_of (players g) player_name of
        None \<Rightarrow> (Inl KeyError, g)
      | Some player \<Rightarrow>
          if get_account_balance (heap g player) = 0 then (Inr (), g)
          else if number_of_spaces < 1 \<or> number_of_spaces > 6 then (Inr (), g)
          else
            (let old_position = get_position (heap g player);
                 g1 = g\<lparr>heap := (heap g)(player :=
                        Player_move_player number_of_spaces (int (length (gameboard g))) (heap g player))\<rparr>;
                 new_position = get_position (heap g1 player)
             in case pass_go old_position new_position player g1 of
                  Inl e \<Rightarrow> (Inl e, g1)
                | Inr g2 \<Rightarrow> landing new_position player g2))"

text \<open>The loop of \<open>check_game_over\<close> over the dictionary's keys.\<close>

fun collect_not_out :: "string list \<Rightarrow> RealEstateGame \<Rightarrow> string list \<Rightarrow> error + string list" where
  "collect_not_out [] g players_not_out = Inr players_not_out"
| "collect_not_out (player # rest) g players_not_out =
     (case get_player_account_balance player g of
        Inl e \<Rightarrow> Inl e
      | Inr balance \<Rightarrow>
          collect_not_out rest g
            (if balance \<noteq> 0 then players_not_out @ [player] else players_not_out))"

definition check_game_over :: "RealEstateGame \<Rightarrow> error + string" where
  "check_game_over g =
     (case collect_not_out (map fst (players g)) g [] of
        Inl e \<Rightarrow> Inl e
      | Inr players_not_out \<Rightarrow>
          if length players_not_out = 1 then Inr (players_not_out ! 0) else Inr [])"

subsection \<open>Sequences of engine calls\<close>

text \<open>
  A driver calls the engine's methods one after the other. \<open>exec\<close> gives the state
  after one call, also when the call raised. \<open>remove_player\<close> takes a \<^verbatim>\<open>Player\<close>
  object: a reference the engine allocated, or an object made outside the engine,
  which is neither registered nor an owner, so that the engine's state is untouched.
\<close>

datatype op =
    CreateSpaces int "int list"
  | CreatePlayer string int
  | BuySpace string
  | MovePlayer string int
  | RemovePlayer nat

fun exec :: "op \<Rightarrow> RealEstateGame \<Rightarrow> RealEstateGame" where
  "exec (CreateSpaces go_payout rent_amounts) g = snd (create_spaces go_payout rent_amounts g)"
| "exec (CreatePlayer nm bal) g = create_player nm bal g"
| "exec (BuySpace nm) g = snd (buy_space nm g)"
| "exec (MovePlayer nm n) g = snd (move_player nm n g)"
| "exec (RemovePlayer r) g = (if r < next_ref g then remove_player r g else g)"

definition run :: "op list \<Rightarrow> RealEstateGame \<Rightarrow> RealEstateGame" where
  "run ops g = fold exec ops g"

section \<open>Predicates used by the properties\<close>

text \<open>
  The amounts of the data model: a payout and a rent are never negative.
\<close>

fun space_ok :: "BoardSpace \<Rightarrow> bool" where
  "space_ok (GoSpace payout_amount) = (0 \<le> payout_amount)"
| "space_ok (PropertySpace rent _) = (0 \<le> rent)"

text \<open>
  No object of the store has a negative balance and every space of the board has an
  amount of the data model.
\<close>

definition amounts_ok :: "RealEstateGame \<Rightarrow> bool" where
  "amounts_ok g = ((\<forall>r. 0 \<le> account_balance (heap g r)) \<and> (\<forall>space \<in> set (gameboard g). space_ok space))"

text \<open>
  A call whose amounts are those of the data model; \<open>create_spaces\<close> reads
  only the first 24 rents.
\<close>

fun op_ok :: "op \<Rightarrow> bool" where
  "op_ok (CreateSpaces go_payout rent_amounts) =
     (0 \<le> go_payout \<and> (\<forall>rent \<in> set (take 24 rent_amounts). 0 \<le> rent))"
| "op_ok _ = True"

text \<open>
  The money of the registered players.
\<close>

definition total_balance :: "RealEstateGame \<Rightarrow> int" where
  "total_balance g = (\<Sum>r\<leftarrow>map snd (players g). account_balance (heap g r))"

text \<open>
  The driver's protocol: players may be registered before the board is built, and
  nobody moves before it is.
\<close>

fun is_create_spaces :: "op \<Rightarrow> bool" where
  "is_create_spaces (CreateSpaces _ _) = True"
| "is_create_spaces _ = False"

fun is_move_player :: "op \<Rightarrow> bool" where
  "is_move_player (MovePlayer _ _) = True"
| "is_move_player _ = False"

text \<open>
  The board has its 25 spaces and every position is an index of it.
\<close>

definition on_board :: "RealEstateGame \<Rightarrow> bool" where
  "on_board g = (length (gameboard g) = 25 \<and>
     (\<forall>r. 0 \<le> position (heap g r) \<and> position (heap g r) < 25))"

text \<open>
  No board yet, and every player still at position 0.
\<close>

definition before_board :: "RealEstateGame \<Rightarrow> bool" where
  "before_board g = (gameboard g = [] \<and> (\<forall>r. position (heap g r) = 0))"

text \<open>
  A registered player who is still in the game: the balance is not zero.
\<close>

definition active :: "RealEstateGame \<Rightarrow> string \<Rightarrow> bool" where
  "active g nm =
     (case map_of (players g) nm of None \<Rightarrow> False
      | Some r \<Rightarrow> account_balance (heap g r) \<noteq> 0)"

text \<open>
  Every owner recorded on the board is an object of the registry.
\<close>

definition owners_registered :: "RealEstateGame \<Rightarrow> bool" where
  "owners_registered g =
     (\<forall>space \<in> set (gameboard g). \<forall>ow. get_owner space = Inr (Some ow) \<longrightarrow> ow \<in> snd ` set (players g))"

text \<open>
  A sequence of calls in which \<open>create_player\<close> never replaces a
  registered name (a call with a balance that is not positive registers nothing).
\<close>

fun fresh_names :: "op list \<Rightarrow> RealEstateGame \<Rightarrow> bool" where
  "fresh_names [] g = True"
| "fresh_names (x # ops) g =
     ((case x of CreatePlayer nm bal \<Rightarrow> bal \<le> 0 \<or> map_of (players g) nm = None | _ \<Rightarrow> True)
      \<and> fresh_names ops (exec x g))"

text \<open>
  Every owner recorded on the board has money left.
\<close>

definition owners_solvent :: "RealEstateGame \<Rightarrow> bool" where
  "owners_solvent g =
     (\<forall>space \<in> set (gameboard g). \<forall>ow. get_owner space = Inr (Some ow) \<longrightarrow> 0 < account_balance (heap g ow))"

text \<open>
  A move that reaches the settlement with the owner of the space landed on with a
  balance exactly equal to the rent: the guards, the step and the payout of
  \<open>move_player\<close>, then the tests of \<open>landing\<close>. The source pays such a rent by the
  ordinary transfer and does not call \<open>remove_player\<close>.
\<close>

definition pays_exact_rent :: "string \<Rightarrow> int \<Rightarrow> RealEstateGame \<Rightarrow> bool" where
  "pays_exact_rent player_name number_of_spaces g =
     (case map_of (players g) player_name of
        None \<Rightarrow> False
      | Some player \<Rightarrow>
          if get_account_balance (heap g player) = 0 then False
          else if number_of_spaces < 1 \<or> number_of_spaces > 6 then False
          else
            (let old_position = get_position (heap g player);
                 g1 = g\<lparr>heap := (heap g)(player :=
                        Player_move_player number_of_spaces (int (length (gameboard g))) (heap g player))\<rparr>;
                 new_position = get_position (heap g1 player)
             in case pass_go old_position new_position player g1 of
                  Inl e \<Rightarrow> False
                | Inr g2 \<Rightarrow>
                    (case list_index (gameboard g2) new_position of
                       None \<Rightarrow> False
                     | Some i \<Rightarrow>
                         (case gameboard g2 ! i of
                            GoSpace _ \<Rightarrow> False
                          | PropertySpace rent owner \<Rightarrow>
                              (case owner of
                                 None \<Rightarrow> False
                               | Some property_owner \<Rightarrow>
                                   property_owner \<noteq> player
                                   \<and> get_account_balance (heap g2 player) = rent)))))"

text \<open>
  A sequence of calls without such a move.
\<close>

fun no_exact_rent :: "op list \<Rightarrow> RealEstateGame \<Rightarrow> bool" where
  "no_exact_rent [] g = True"
| "no_exact_rent (x # ops) g =
     ((case x of MovePlayer nm n \<Rightarrow> \<not> pays_exact_rent nm n g | _ \<Rightarrow> True)
      \<and> no_exact_rent ops (exec x g))"

text \<open>
  The registry is a dictionary (one entry for a name) whose objects are distinct and
  allocated.
\<close>

definition registry_ok :: "RealEstateGame \<Rightarrow> bool" where
  "registry_ok g =
     (distinct (map fst (players g)) \<and> distinct (map snd (players g))
      \<and> (\<forall>r \<in> snd ` set (players g). r < next_ref g))"

text \<open>
  A board that is not empty starts with the GO space.
\<close>

definition board_ok :: "RealEstateGame \<Rightarrow> bool" where
  "board_ok g =
     (case gameboard g of [] \<Rightarrow> True | GoSpace _ # _ \<Rightarrow> True | PropertySpace _ _ # _ \<Rightarrow> False)"

subsection \<open>Example games\<close>

text \<open>
  B owns the second property with a balance of 10 and stands one step before A's
  property, whose rent is 20.
\<close>

definition rent_ops :: "op list" where
  "rent_ops =
     [CreateSpaces 50 ([10, 10, 20] @ replicate 21 10),
      CreatePlayer ''A'' 200, CreatePlayer ''B'' 60,
      MovePlayer ''A'' 3, BuySpace ''A'', MovePlayer ''B'' 2, BuySpace ''B'']"

definition rent_state :: RealEstateGame where
  "rent_state = run rent_ops RealEstateGame_init"

text \<open>
  The first scenario of the specification: A has bought the first property for 50.
\<close>

definition scenario_state :: RealEstateGame where
  "scenario_state =
     run [CreateSpaces 50 (replicate 24 10), CreatePlayer ''A'' 100, CreatePlayer ''B'' 100,
          MovePlayer ''A'' 1, BuySpace ''A''] RealEstateGame_init"

text \<open>
  B owns the first property; A stands on space 23 with a balance of 100.
\<close>

definition wrap_ops :: "op list" where
  "wrap_ops =
     [CreateSpaces 50 (replicate 24 10), CreatePlayer ''A'' 100, CreatePlayer ''B'' 100,
      MovePlayer ''B'' 1, BuySpace ''B'',
      MovePlayer ''A'' 6, MovePlayer ''A'' 6, MovePlayer ''A'' 6, MovePlayer ''A'' 5]"

definition wrap_state :: RealEstateGame where
  "wrap_state = run wrap_ops RealEstateGame_init"

text \<open>
  A owns space 1 and B stands on it; C stands on space 2 with exactly its price, D on
  space 3 with one more than its price, E on GO.
\<close>

definition buy_state :: RealEstateGame where
  "buy_state =
     run [CreateSpaces 50 (replicate 24 10), CreatePlayer ''A'' 100, CreatePlayer ''B'' 100,
          CreatePlayer ''C'' 50, CreatePlayer ''D'' 51, CreatePlayer ''E'' 100,
          MovePlayer ''A'' 1, BuySpace ''A'', MovePlayer ''B'' 1, MovePlayer ''C'' 2,
          MovePlayer ''D'' 3] RealEstateGame_init"

text \<open>
  A buys the first property, then the name A is registered again.
\<close>

definition leak_ops :: "op list" where
  "leak_ops =
     [CreateSpaces 50 (replicate 24 10), CreatePlayer ''A'' 100, CreatePlayer ''B'' 100,
      MovePlayer ''A'' 1, BuySpace ''A'', CreatePlayer ''A'' 100]"

definition leak_state :: RealEstateGame where
  "leak_state = run leak_ops RealEstateGame_init"

text \<open>
  B owns the second property and lands on A's property with a balance equal to its
  rent.
\<close>

definition exact_rent_state :: RealEstateGame where
  "exact_rent_state =
     run [CreateSpaces 50 ([10, 10, 20] @ replicate 21 10),
          CreatePlayer ''A'' 200, CreatePlayer ''B'' 70,
          MovePlayer ''A'' 3, BuySpace ''A'', MovePlayer ''B'' 2, BuySpace ''B'',
          MovePlayer ''B'' 1] RealEstateGame_init"

text \<open>
  The game of \<open>rent_ops\<close>, then B lands on A's property with a balance below its rent.
\<close>

definition bankrupt_ops :: "op list" where
  "bankrupt_ops = rent_ops @ [MovePlayer ''B'' 1]"

text \<open>
  A board whose GO space pays -50: A buys the first property, keeps 50 and passes GO.
\<close>

definition drained_ops :: "op list" where
  "drained_ops =
     [CreateSpaces (- 50) (replicate 24 10), CreatePlayer ''A'' 100,
      MovePlayer ''A'' 1, BuySpace ''A'',
      MovePlayer ''A'' 6, MovePlayer ''A'' 6, MovePlayer ''A'' 6, MovePlayer ''A'' 6]"

text \<open>
  The same board: A starts with 30 and passes GO.
\<close>

definition debt_ops :: "op list" where
  "debt_ops =
     [CreateSpaces (- 50) (replicate 24 10), CreatePlayer ''A'' 30,
      MovePlayer ''A'' 6, MovePlayer ''A'' 6, MovePlayer ''A'' 6, MovePlayer ''A'' 6,
      MovePlayer ''A'' 1]"

text \<open>
  A moves ten times before the board is built: every call raises IndexError and leaves
  the new position in place.
\<close>

definition early_state :: RealEstateGame where
  "early_state =
     run (CreatePlayer ''A'' 100 # replicate 10 (MovePlayer ''A'' 6)
          @ [CreateSpaces 50 (replicate 24 10)]) RealEstateGame_init"

section \<open>Properties\<close>

subsection \<open>The board built by \<open>create_spaces\<close>\<close>

lemma append_properties_snd:
  "snd (append_properties [k..<m] rs g) =
     g\<lparr>gameboard := gameboard g @ map (\<lambda>r. PropertySpace r None) (take (m - k) (drop k rs))\<rparr>"
proof (induction "m - k" arbitrary: k g)
  case 0
  then show ?case by simp
next
  case (Suc d)
  then have km: "k < m" and d: "d = m - Suc k" by auto
  have upt: "[k..<m] = k # [Suc k..<m]" using km by (simp add: upt_conv_Cons)
  show ?case
  proof (cases "k < length rs")
    case True
    have "take (m - k) (drop k rs) = rs ! k # take (m - Suc k) (drop (Suc k) rs)"
      using True km by (metis Cons_nth_drop_Suc Suc_diff_Suc take_Suc_Cons)
    then show ?thesis using True Suc.hyps(1)[OF d] upt by simp
  next
    case False
    then show ?thesis using upt by simp
  qed
qed

lemma append_properties_fst:
  "fst (append_properties [k..<m] rs g) = (if m \<le> length rs \<or> m \<le> k then Inr () else Inl IndexError)"
proof (induction "m - k" arbitrary: k g)
  case 0
  then show ?case by simp
next
  case (Suc d)
  then have km: "k < m" and d: "d = m - Suc k" by auto
  have upt: "[k..<m] = k # [Suc k..<m]" using km by (simp add: upt_conv_Cons)
  show ?case using Suc.hyps(1)[OF d] upt km by auto
qed

lemma create_spaces_snd:
  "snd (create_spaces p rs g) =
     g\<lparr>gameboard := gameboard g @ GoSpace p # map (\<lambda>r. PropertySpace r None) (take 24 rs)\<rparr>"
  by (simp add: create_spaces_def append_properties_snd)

lemma create_spaces_fst:
  "fst (create_spaces p rs g) = (if 24 \<le> length rs then Inr () else Inl IndexError)"
  by (simp add: create_spaces_def append_properties_fst)

subsection \<open>Balances are never negative\<close>

lemma sub_account_balance_nonneg:
  "0 \<le> account_balance p \<Longrightarrow> 0 \<le> account_balance (sub_account_balance amount p)"
  by (simp add: sub_account_balance_def)

lemma space_ok_new_owner: "space_ok (new_owner x space) = space_ok space"
  by (cases space) simp_all

lemma space_ok_clear_owner: "space_ok (clear_owner r space) = space_ok space"
  by (simp add: clear_owner_def space_ok_new_owner)

lemma amounts_ok_create_spaces:
  "amounts_ok g \<Longrightarrow> op_ok (CreateSpaces p rs) \<Longrightarrow> amounts_ok (snd (create_spaces p rs g))"
  by (auto simp: amounts_ok_def create_spaces_snd)

lemma amounts_ok_create_player: "amounts_ok g \<Longrightarrow> amounts_ok (create_player nm bal g)"
  by (simp add: amounts_ok_def create_player_def Player_init_def)

lemma amounts_ok_remove_player: "amounts_ok g \<Longrightarrow> amounts_ok (remove_player r g)"
  by (simp add: amounts_ok_def remove_player_def sub_account_balance_nonneg space_ok_clear_owner)

lemma set_update_all:
  "\<forall>x \<in> set xs. P x \<Longrightarrow> P v \<Longrightarrow> \<forall>x \<in> set (xs[i := v]). P x"
  using set_update_subset_insert[of xs i v] by auto

lemma list_index_less: "list_index xs i = Some k \<Longrightarrow> k < length xs"
  by (auto simp: list_index_def Let_def split: if_splits)

lemma amounts_ok_buy_space: 
  assumes "amounts_ok g"
  shows "amounts_ok (snd (buy_space nm g))"
proof -
  have upd: "\<forall>space \<in> set ((gameboard g)[i := PropertySpace rent x]). space_ok space"
    if "gameboard g ! i = PropertySpace rent y" and "i < length (gameboard g)" for i rent x y
  proof (rule set_update_all)
    show "\<forall>space \<in> set (gameboard g). space_ok space"
      using assms by (simp add: amounts_ok_def)
    have "space_ok (gameboard g ! i)" using assms that(2) by (simp add: amounts_ok_def)
    then show "space_ok (PropertySpace rent x)" using that(1) by simp
  qed
  show ?thesis
    using assms upd
    by (auto simp: buy_space_def amounts_ok_def Let_def get_player_account_balance_def
        sub_account_balance_nonneg
        split: option.splits BoardSpace.splits sum.splits dest: list_index_less)
qed

lemma amounts_ok_pay_rent:
  assumes "amounts_ok g" and "0 \<le> rent"
  shows "amounts_ok (pay_rent r ow rent g)"
proof -
  have b: "\<And>x. 0 \<le> account_balance (heap g x)" using assms by (simp add: amounts_ok_def)
  show ?thesis
    using assms b
    by (auto simp: pay_rent_def amounts_ok_def remove_player_def Let_def get_account_balance_def
        add_account_balance_def sub_account_balance_def space_ok_clear_owner)
qed

lemma amounts_ok_landing:
  assumes "amounts_ok g"
  shows "amounts_ok (snd (landing new r g))"
proof (cases "list_index (gameboard g) new")
  case None
  then show ?thesis using assms by (simp add: landing_def)
next
  case (Some i)
  then have "i < length (gameboard g)" by (rule list_index_less)
  then have "space_ok (gameboard g ! i)" using assms by (simp add: amounts_ok_def)
  then show ?thesis using assms Some
    by (auto simp: landing_def amounts_ok_pay_rent split: BoardSpace.splits option.splits)
qed

lemma amounts_ok_pass_go:
  assumes "amounts_ok g" and "pass_go old new r g = Inr g'"
  shows "amounts_ok g'"
proof (cases "new < old")
  case False
  then show ?thesis using assms by (simp add: pass_go_def)
next
  case True
  with assms(2) obtain i where i: "list_index (gameboard g) 0 = Some i"
    by (auto simp: pass_go_def split: option.splits)
  with assms(2) True obtain p where p': "get_payout_amount (gameboard g ! i) = Inr p"
    and g': "g' = g\<lparr>heap := (heap g)(r := add_account_balance p (heap g r))\<rparr>"
    by (auto simp: pass_go_def split: sum.splits)
  from p' have p: "gameboard g ! i = GoSpace p"
    by (cases "gameboard g ! i") simp_all
  from i have "i < length (gameboard g)" by (rule list_index_less)
  then have "space_ok (gameboard g ! i)" using assms(1) by (simp add: amounts_ok_def)
  then have "0 \<le> p" using p by simp
  then show ?thesis using assms(1) g' by (simp add: amounts_ok_def add_account_balance_def)
qed

lemma amounts_ok_position:
  "amounts_ok g \<Longrightarrow> amounts_ok (g\<lparr>heap := (heap g)(r := Player_move_player n sz (heap g r))\<rparr>)"
  by (simp add: amounts_ok_def Player_move_player_def Let_def)

lemma amounts_ok_move_player:
  assumes "amounts_ok g"
  shows "amounts_ok (snd (move_player nm n g))"
proof (cases "map_of (players g) nm")
  case None
  then show ?thesis using assms by (simp add: move_player_def)
next
  case (Some r)
  let ?g1 = "g\<lparr>heap := (heap g)(r := Player_move_player n (int (length (gameboard g))) (heap g r))\<rparr>"
  have g1: "amounts_ok ?g1" by (rule amounts_ok_position[OF assms])
  show ?thesis
  proof (cases "pass_go (get_position (heap g r)) (get_position (heap ?g1 r)) r ?g1")
    case (Inl e)
    then show ?thesis using Some assms g1 by (simp add: move_player_def Let_def)
  next
    case (Inr g2)
    then have "amounts_ok g2" using g1 amounts_ok_pass_go by blast
    then have "amounts_ok (snd (landing (get_position (heap ?g1 r)) r g2))"
      by (rule amounts_ok_landing)
    then show ?thesis using Some assms Inr by (simp add: move_player_def Let_def)
  qed
qed

lemma amounts_ok_exec: "amounts_ok g \<Longrightarrow> op_ok x \<Longrightarrow> amounts_ok (exec x g)"
  by (cases x)
     (simp_all add: amounts_ok_create_spaces amounts_ok_create_player amounts_ok_buy_space
        amounts_ok_move_player amounts_ok_remove_player)

lemma amounts_ok_run: "amounts_ok g \<Longrightarrow> \<forall>x \<in> set ops. op_ok x \<Longrightarrow> amounts_ok (run ops g)"
  unfolding run_def by (induction ops arbitrary: g) (simp_all add: amounts_ok_exec)

lemma amounts_ok_init: "amounts_ok RealEstateGame_init"
  by (simp add: amounts_ok_def RealEstateGame_init_def Player_init_def)

text \<open>
  C1, as amended: whatever sequence of engine calls (\<open>create_spaces\<close>,
  \<open>create_player\<close>, \<open>buy_space\<close>, \<open>move_player\<close>, \<open>remove_player\<close>) a driver makes
  from the initial state, provided that every call of \<open>create_spaces\<close> passes a payout
  and rents (the 24 it reads) that are not negative, the balance of every registered
  player is non-negative. \<open>sub_account_balance\<close> keeps a balance non-negative, sets it
  to exactly zero when the amount exceeds it, and subtracts the amount exactly otherwise.
\<close>

theorem balance_never_negative:
  "((\<forall>x \<in> set ops. op_ok x) \<longrightarrow>
     (\<forall>(nm, r) \<in> set (players (run ops RealEstateGame_init)).
        0 \<le> account_balance (heap (run ops RealEstateGame_init) r)))
   \<and> (0 \<le> account_balance p \<longrightarrow> 0 \<le> account_balance (sub_account_balance amount p))
   \<and> (account_balance p < amount \<longrightarrow> account_balance (sub_account_balance amount p) = 0)
   \<and> (amount \<le> account_balance p \<longrightarrow>
        account_balance (sub_account_balance amount p) = account_balance p - amount)"
proof -
  have "(\<forall>x \<in> set ops. op_ok x) \<Longrightarrow> amounts_ok (run ops RealEstateGame_init)"
    using amounts_ok_run[OF amounts_ok_init] by simp
  then show ?thesis
    by (auto simp: amounts_ok_def sub_account_balance_def)
qed

text \<open>
  C1 as stated fails for a payout that is negative, which \<open>create_spaces\<close> accepts:
  A, with a balance of 30, passes GO on a board whose GO space pays -50 and is left with
  -20.
\<close>

theorem balance_never_negative_counterexample:
  "(''A'', 0) \<in> set (players (run debt_ops RealEstateGame_init))
   \<and> position (heap (run debt_ops RealEstateGame_init) 0) = 0
   \<and> account_balance (heap (run debt_ops RealEstateGame_init) 0) = - 20"
  by code_simp

text \<open>
  The invariant and the clamp at concrete inputs: B after the calls of \<open>wrap_ops\<close>,
  and the amounts 10 from 5 (clamped) and 10 from 100.
\<close>

theorem balance_never_negative_witness:
  "list_all op_ok wrap_ops
   \<and> (''B'', 1) \<in> set (players (run wrap_ops RealEstateGame_init))
   \<and> 0 \<le> account_balance (heap (run wrap_ops RealEstateGame_init) 1)
   \<and> account_balance (Player_init ''B'' 5) < 10
   \<and> account_balance (sub_account_balance 10 (Player_init ''B'' 5)) = 0
   \<and> (10::int) \<le> account_balance (Player_init ''B'' 100)
   \<and> account_balance (sub_account_balance 10 (Player_init ''B'' 100)) = 90"
proof -
  have ok: "\<forall>x \<in> set wrap_ops. op_ok x"
    by (simp add: wrap_ops_def)
  have reg: "(''B'', 1) \<in> set (players (run wrap_ops RealEstateGame_init))"
    by code_simp
  have lo: "account_balance (Player_init ''B'' 5) < 10"
    and hi: "(10::int) \<le> account_balance (Player_init ''B'' 100)"
    by (simp_all add: Player_init_def)
  have d: "account_balance (Player_init ''B'' 100) - 10 = 90"
    by (simp add: Player_init_def)
  from balance_never_negative[of wrap_ops "Player_init ''B'' 5" 10] ok lo
  have a: "\<forall>(nm, r) \<in> set (players (run wrap_ops RealEstateGame_init)).
        0 \<le> account_balance (heap (run wrap_ops RealEstateGame_init) r)"
    and b: "account_balance (sub_account_balance 10 (Player_init ''B'' 5)) = 0"
    by blast+
  from a reg have a': "0 \<le> account_balance (heap (run wrap_ops RealEstateGame_init) 1)"
    by blast
  from balance_never_negative[of wrap_ops "Player_init ''B'' 100" 10] hi d
  have c: "account_balance (sub_account_balance 10 (Player_init ''B'' 100)) = 90"
    by simp
  from ok have ok': "list_all op_ok wrap_ops"
    by (simp add: list_all_iff)
  from ok' reg a' b lo hi c show ?thesis by blast
qed

subsection \<open>A move of a player who is in the game\<close>

text \<open>
  Past its guards, \<open>move_player\<close> is the landing on the new position in the state where
  the mover has the new position and the balance with the payout for passing GO.
\<close>

lemma move_player_active:
  assumes reg: "map_of (players g) nm = Some r"
    and bal: "account_balance (heap g r) \<noteq> 0"
    and n: "1 \<le> n" "n \<le> 6"
    and go: "gameboard g = GoSpace go_payout # spaces"
    and old: "old = position (heap g r)"
    and new: "new = position (Player_move_player n (int (length (gameboard g))) (heap g r))"
  shows "move_player nm n g =
     landing new r
       (g\<lparr>heap := (heap g)(r := (heap g r)\<lparr>position := new,
            account_balance := account_balance (heap g r) + (if new < old then go_payout else 0)\<rparr>)\<rparr>)"
proof -
  let ?p1 = "Player_move_player n (int (length (gameboard g))) (heap g r)"
  let ?g1 = "g\<lparr>heap := (heap g)(r := ?p1)\<rparr>"
  have p1: "?p1 = (heap g r)\<lparr>position := new\<rparr>"
    unfolding new by (simp add: Player_move_player_def Let_def)
  have idx: "list_index (gameboard ?g1) 0 = Some 0"
    using go by (simp add: list_index_def)
  have pg: "pass_go old new r ?g1 =
      Inr (g\<lparr>heap := (heap g)(r := (heap g r)\<lparr>position := new,
            account_balance := account_balance (heap g r) + (if new < old then go_payout else 0)\<rparr>)\<rparr>)"
    using go idx p1 by (simp add: pass_go_def add_account_balance_def)
  have gp: "get_position (heap ?g1 r) = new"
    using p1 by (simp add: get_position_def)
  show ?thesis
    using reg bal n pg gp old
    by (simp add: move_player_def Let_def get_account_balance_def get_position_def)
qed

lemma clear_owner_cases:
  "clear_owner r space =
     (case space of GoSpace p \<Rightarrow> GoSpace p
      | PropertySpace rent owner \<Rightarrow> PropertySpace rent (if owner = Some r then None else owner))"
  by (cases space) (auto simp: clear_owner_def)

lemma pay_rent_bankrupt:
  assumes "account_balance (heap g r) < rent" and "ow \<noteq> r"
  shows "pay_rent r ow rent g =
     g\<lparr>heap := (heap g)(ow := (heap g ow)\<lparr>account_balance := account_balance (heap g ow) + account_balance (heap g r)\<rparr>,
                         r := (heap g r)\<lparr>account_balance := 0\<rparr>),
       gameboard := map (clear_owner r) (gameboard g)\<rparr>"
  using assms
  by (simp add: pay_rent_def remove_player_def get_account_balance_def add_account_balance_def
      sub_account_balance_def)

lemma pay_rent_transfer:
  assumes "rent \<le> account_balance (heap g r)" and "ow \<noteq> r"
  shows "pay_rent r ow rent g =
     g\<lparr>heap := (heap g)(ow := (heap g ow)\<lparr>account_balance := account_balance (heap g ow) + rent\<rparr>,
                         r := (heap g r)\<lparr>account_balance := account_balance (heap g r) - rent\<rparr>)\<rparr>"
  using assms
  by (simp add: pay_rent_def get_account_balance_def add_account_balance_def
      sub_account_balance_def Let_def)

text \<open>
  C2: a registered player with a balance that is not zero moves \<open>n\<close> spaces,
  \<open>1 \<le> n \<le> 6\<close>, on a board that starts with the GO space. \<open>b\<close> is the balance after
  the payout for passing GO, if any. If the space landed on is a property of another
  player and \<open>b\<close> is less than the rent, then the call returns without error, the
  owner's balance grows by exactly \<open>b\<close>, the mover's balance is 0, and every space the
  mover owned has no owner afterwards, while every other space keeps its owner and rent.
\<close>

theorem move_player_bankrupt:
  assumes reg: "map_of (players g) nm = Some r"
    and bal: "account_balance (heap g r) \<noteq> 0"
    and n: "1 \<le> n" "n \<le> 6"
    and go: "gameboard g = GoSpace go_payout # spaces"
    and old: "old = position (heap g r)"
    and new: "new = position (Player_move_player n (int (length (gameboard g))) (heap g r))"
    and credited: "b = account_balance (heap g r) + (if new < old then go_payout else 0)"
    and landed: "list_index (gameboard g) new = Some i"
    and space: "gameboard g ! i = PropertySpace rent (Some ow)"
    and other: "ow \<noteq> r"
    and short: "b < rent"
    and after: "g' = snd (move_player nm n g)"
  shows "fst (move_player nm n g) = Inr ()
    \<and> account_balance (heap g' ow) = account_balance (heap g ow) + b
    \<and> account_balance (heap g' r) = 0
    \<and> length (gameboard g') = length (gameboard g)
    \<and> (\<forall>j < length (gameboard g).
         gameboard g' ! j =
           (case gameboard g ! j of
              GoSpace p \<Rightarrow> GoSpace p
            | PropertySpace rent' owner \<Rightarrow>
                PropertySpace rent' (if owner = Some r then None else owner)))"
proof -
  let ?g2 = "g\<lparr>heap := (heap g)(r := (heap g r)\<lparr>position := new, account_balance := b\<rparr>)\<rparr>"
  have mv: "move_player nm n g = landing new r ?g2"
    unfolding credited by (rule move_player_active[OF reg bal n go old new])
  have b2: "account_balance (heap ?g2 r) < rent" using short by simp
  have "landing new r ?g2 = (Inr (), pay_rent r ow rent ?g2)"
    using landed space other by (simp add: landing_def)
  then have "move_player nm n g = (Inr (), pay_rent r ow rent ?g2)"
    using mv by simp
  then show ?thesis
    using other after
    by (simp add: pay_rent_bankrupt[OF b2 other] clear_owner_cases)
qed

text \<open>
  B, with 10 left and the owner of space 2, lands on A's property with rent 20: A's
  balance goes from 100 to 110, B's to 0, and space 2 has no owner.
\<close>

theorem move_player_bankrupt_witness:
  "map_of (players rent_state) ''B'' = Some 1
   \<and> account_balance (heap rent_state 1) = 10
   \<and> account_balance (heap rent_state 0) = 100
   \<and> position (heap rent_state 1) = 2
   \<and> gameboard rent_state ! 3 = PropertySpace 20 (Some 0)
   \<and> gameboard rent_state ! 2 = PropertySpace 10 (Some 1)
   \<and> fst (move_player ''B'' 1 rent_state) = Inr ()
   \<and> account_balance (heap (snd (move_player ''B'' 1 rent_state)) 0) = 110
   \<and> account_balance (heap (snd (move_player ''B'' 1 rent_state)) 1) = 0
   \<and> gameboard (snd (move_player ''B'' 1 rent_state)) ! 2 = PropertySpace 10 None
   \<and> gameboard (snd (move_player ''B'' 1 rent_state)) ! 3 = PropertySpace 20 (Some 0)"
proof -
  let ?g = rent_state
  have reg: "map_of (players ?g) ''B'' = Some 1" by code_simp
  have balB: "account_balance (heap ?g 1) = 10" by code_simp
  have balA: "account_balance (heap ?g 0) = 100" by code_simp
  have go: "gameboard ?g = GoSpace 50 # tl (gameboard ?g)" by code_simp
  have pos: "position (heap ?g 1) = 2" by code_simp
  have new: "3 = position (Player_move_player 1 (int (length (gameboard ?g))) (heap ?g 1))"
    by code_simp
  have b: "10 = account_balance (heap ?g 1) + (if (3::int) < 2 then 50 else 0)"
    using balB by simp
  have landed: "list_index (gameboard ?g) 3 = Some 3" by code_simp
  have sp3: "gameboard ?g ! 3 = PropertySpace 20 (Some 0)" by code_simp
  have sp2: "gameboard ?g ! 2 = PropertySpace 10 (Some 1)" by code_simp
  have len: "length (gameboard ?g) = 25" by code_simp
  have bal: "account_balance (heap ?g 1) \<noteq> 0" using balB by simp
  have th: "fst (move_player ''B'' 1 ?g) = Inr ()
    \<and> account_balance (heap (snd (move_player ''B'' 1 ?g)) 0) = account_balance (heap ?g 0) + 10
    \<and> account_balance (heap (snd (move_player ''B'' 1 ?g)) 1) = 0
    \<and> length (gameboard (snd (move_player ''B'' 1 ?g))) = length (gameboard ?g)
    \<and> (\<forall>j < length (gameboard ?g).
         gameboard (snd (move_player ''B'' 1 ?g)) ! j =
           (case gameboard ?g ! j of
              GoSpace p \<Rightarrow> GoSpace p
            | PropertySpace rent' owner \<Rightarrow>
                PropertySpace rent' (if owner = Some 1 then None else owner)))"
    by (rule move_player_bankrupt[OF reg bal _ _ go pos[symmetric] new b landed sp3 _ _ refl]) simp_all
  from th len sp2 have c2: "gameboard (snd (move_player ''B'' 1 ?g)) ! 2 = PropertySpace 10 None"
    by simp
  from th len sp3 have c3: "gameboard (snd (move_player ''B'' 1 ?g)) ! 3 = PropertySpace 20 (Some 0)"
    by simp
  from th balA have cA: "account_balance (heap (snd (move_player ''B'' 1 ?g)) 0) = 110"
    by simp
  from reg balB balA pos sp3 sp2 th cA c2 c3 show ?thesis by blast
qed

text \<open>
  C6: with the same preconditions, and \<open>b\<close> the mover's balance after the payout for
  passing GO: if the space landed on is a property of another player and \<open>b\<close> is at
  least the rent, the mover's balance is \<open>b\<close> minus the rent, the owner's balance grows
  by the rent, nobody else's object changes and the board is unchanged. If the space has
  no owner, is the mover's own or is the GO space, the mover's balance is \<open>b\<close>, no other
  object changes and the board is unchanged.
\<close>

theorem move_player_rent:
  assumes reg: "map_of (players g) nm = Some r"
    and bal: "account_balance (heap g r) \<noteq> 0"
    and n: "1 \<le> n" "n \<le> 6"
    and go: "gameboard g = GoSpace go_payout # spaces"
    and old: "old = position (heap g r)"
    and new: "new = position (Player_move_player n (int (length (gameboard g))) (heap g r))"
    and credited: "b = account_balance (heap g r) + (if new < old then go_payout else 0)"
    and landed: "list_index (gameboard g) new = Some i"
    and after: "g' = snd (move_player nm n g)"
  shows "(\<forall>rent ow. gameboard g ! i = PropertySpace rent (Some ow) \<and> ow \<noteq> r \<and> rent \<le> b \<longrightarrow>
            account_balance (heap g' r) = b - rent
          \<and> account_balance (heap g' ow) = account_balance (heap g ow) + rent
          \<and> (\<forall>x. x \<noteq> r \<and> x \<noteq> ow \<longrightarrow> heap g' x = heap g x)
          \<and> gameboard g' = gameboard g)
    \<and> ((\<exists>p. gameboard g ! i = GoSpace p) \<or> (\<exists>rent. gameboard g ! i = PropertySpace rent None)
          \<or> (\<exists>rent. gameboard g ! i = PropertySpace rent (Some r)) \<longrightarrow>
            account_balance (heap g' r) = b
          \<and> (\<forall>x. x \<noteq> r \<longrightarrow> heap g' x = heap g x)
          \<and> gameboard g' = gameboard g)"
proof -
  let ?g2 = "g\<lparr>heap := (heap g)(r := (heap g r)\<lparr>position := new, account_balance := b\<rparr>)\<rparr>"
  have mv: "move_player nm n g = landing new r ?g2"
    unfolding credited by (rule move_player_active[OF reg bal n go old new])
  have paying: "account_balance (heap g' r) = b - rent
          \<and> account_balance (heap g' ow) = account_balance (heap g ow) + rent
          \<and> (\<forall>x. x \<noteq> r \<and> x \<noteq> ow \<longrightarrow> heap g' x = heap g x)
          \<and> gameboard g' = gameboard g"
    if space: "gameboard g ! i = PropertySpace rent (Some ow)" and other: "ow \<noteq> r"
      and enough: "rent \<le> b" for rent ow
  proof -
    have b2: "rent \<le> account_balance (heap ?g2 r)" using enough by simp
    have "landing new r ?g2 = (Inr (), pay_rent r ow rent ?g2)"
      using landed space other by (simp add: landing_def)
    then have "g' = pay_rent r ow rent ?g2" using mv after by simp
    then show ?thesis using other by (simp add: pay_rent_transfer[OF b2 other])
  qed
  have free: "account_balance (heap g' r) = b
          \<and> (\<forall>x. x \<noteq> r \<longrightarrow> heap g' x = heap g x) \<and> gameboard g' = gameboard g"
    if "(\<exists>p. gameboard g ! i = GoSpace p) \<or> (\<exists>rent. gameboard g ! i = PropertySpace rent None)
          \<or> (\<exists>rent. gameboard g ! i = PropertySpace rent (Some r))"
  proof -
    have "landing new r ?g2 = (Inr (), ?g2)"
      using landed that by (auto simp: landing_def)
    then have "g' = ?g2" using mv after by simp
    then show ?thesis by simp
  qed
  show ?thesis using paying free by blast
qed

text \<open>
  The second scenario of the specification: B lands on A's property and pays 10 (100 to
  90, A from 50 to 60); A moving on to a space without owner pays nothing.
\<close>

theorem move_player_rent_witness:
  "map_of (players scenario_state) ''B'' = Some 1
   \<and> account_balance (heap scenario_state 1) = 100
   \<and> account_balance (heap scenario_state 0) = 50
   \<and> gameboard scenario_state ! 1 = PropertySpace 10 (Some 0)
   \<and> gameboard scenario_state ! 2 = PropertySpace 10 None
   \<and> account_balance (heap (snd (move_player ''B'' 1 scenario_state)) 1) = 90
   \<and> account_balance (heap (snd (move_player ''B'' 1 scenario_state)) 0) = 60
   \<and> account_balance (heap (snd (move_player ''A'' 1 scenario_state)) 0) = 50
   \<and> account_balance (heap (snd (move_player ''A'' 1 scenario_state)) 1) = 100"
proof -
  let ?g = scenario_state
  have regB: "map_of (players ?g) ''B'' = Some 1" by code_simp
  have regA: "map_of (players ?g) ''A'' = Some 0" by code_simp
  have balB: "account_balance (heap ?g 1) = 100" by code_simp
  have balA: "account_balance (heap ?g 0) = 50" by code_simp
  have go: "gameboard ?g = GoSpace 50 # tl (gameboard ?g)" by code_simp
  have oldB: "0 = position (heap ?g 1)" by code_simp
  have newB: "1 = position (Player_move_player 1 (int (length (gameboard ?g))) (heap ?g 1))"
    by code_simp
  have oldA: "1 = position (heap ?g 0)" by code_simp
  have newA: "2 = position (Player_move_player 1 (int (length (gameboard ?g))) (heap ?g 0))"
    by code_simp
  have l1: "list_index (gameboard ?g) 1 = Some 1" by code_simp
  have l2: "list_index (gameboard ?g) 2 = Some 2" by code_simp
  have sp1: "gameboard ?g ! 1 = PropertySpace 10 (Some 0)" by code_simp
  have sp2: "gameboard ?g ! 2 = PropertySpace 10 None" by code_simp
  have nzB: "account_balance (heap ?g 1) \<noteq> 0" using balB by simp
  have nzA: "account_balance (heap ?g 0) \<noteq> 0" using balA by simp
  have bB: "100 = account_balance (heap ?g 1) + (if (1::int) < 0 then 50 else 0)"
    using balB by simp
  have bA: "50 = account_balance (heap ?g 0) + (if (2::int) < 1 then 50 else 0)"
    using balA by simp
  have one: "(1::int) \<le> 1" "(1::int) \<le> 6" by simp_all
  note tB = move_player_rent[OF regB nzB one go oldB newB bB l1 refl]
  from tB sp1 have pB: "account_balance (heap (snd (move_player ''B'' 1 ?g)) 1) = 100 - 10
      \<and> account_balance (heap (snd (move_player ''B'' 1 ?g)) 0) = account_balance (heap ?g 0) + 10"
    by simp
  note tA = move_player_rent[OF regA nzA one go oldA newA bA l2 refl]
  from tA sp2 have pA: "account_balance (heap (snd (move_player ''A'' 1 ?g)) 0) = 50
      \<and> heap (snd (move_player ''A'' 1 ?g)) 1 = heap ?g 1"
    by simp
  from regB balB balA sp1 sp2 pB pA show ?thesis by simp
qed

text \<open>
  C4: with the same preconditions, the mover's final balance is the old balance, plus the
  payout of the GO space once if the new position is less than the old one and not at
  all otherwise, minus what the landing takes (the rent, or everything when the rent
  exceeds the balance, on a property of another player; nothing anywhere else, also when
  the new position is the GO space itself).
\<close>

theorem move_player_go_payout:
  assumes reg: "map_of (players g) nm = Some r"
    and bal: "account_balance (heap g r) \<noteq> 0"
    and n: "1 \<le> n" "n \<le> 6"
    and go: "gameboard g = GoSpace go_payout # spaces"
    and old: "old = position (heap g r)"
    and new: "new = position (Player_move_player n (int (length (gameboard g))) (heap g r))"
    and after: "g' = snd (move_player nm n g)"
  shows "account_balance (heap g' r) =
     (let b = account_balance (heap g r) + (if new < old then go_payout else 0)
      in case list_index (gameboard g) new of
           None \<Rightarrow> b
         | Some i \<Rightarrow>
             (case gameboard g ! i of
                GoSpace p \<Rightarrow> b
              | PropertySpace rent owner \<Rightarrow>
                  (case owner of
                     None \<Rightarrow> b
                   | Some ow \<Rightarrow> if ow \<noteq> r then (if b < rent then 0 else b - rent) else b)))"
proof -
  define b where "b = account_balance (heap g r) + (if new < old then go_payout else 0)"
  let ?g2 = "g\<lparr>heap := (heap g)(r := (heap g r)\<lparr>position := new, account_balance := b\<rparr>)\<rparr>"
  have mv: "g' = snd (landing new r ?g2)"
    unfolding b_def after by (simp add: move_player_active[OF reg bal n go old new])
  have pr: "account_balance (heap (pay_rent r ow rent ?g2) r) = (if b < rent then 0 else b - rent)"
    if "ow \<noteq> r" for ow rent
    using that pay_rent_bankrupt[of ?g2 r rent ow] pay_rent_transfer[of rent ?g2 r ow]
    by (cases "b < rent") simp_all
  show ?thesis
    unfolding mv Let_def b_def[symmetric]
    by (simp add: landing_def pr split: option.splits BoardSpace.splits)
qed

text \<open>
  The fourth scenario of the specification: from space 23 a move of 3 ends on space 1,
  which B owns: 100 + 50 - 10 = 140.
\<close>

theorem move_player_go_payout_witness:
  "map_of (players wrap_state) ''A'' = Some 0
   \<and> account_balance (heap wrap_state 0) = 100
   \<and> position (heap wrap_state 0) = 23
   \<and> position (Player_move_player 3 (int (length (gameboard wrap_state))) (heap wrap_state 0)) = 1
   \<and> gameboard wrap_state ! 0 = GoSpace 50
   \<and> gameboard wrap_state ! 1 = PropertySpace 10 (Some 1)
   \<and> account_balance (heap (snd (move_player ''A'' 3 wrap_state)) 0) = 140"
proof -
  let ?g = wrap_state
  have reg: "map_of (players ?g) ''A'' = Some 0" by code_simp
  have balA: "account_balance (heap ?g 0) = 100" by code_simp
  have go: "gameboard ?g = GoSpace 50 # tl (gameboard ?g)" by code_simp
  have go0: "gameboard ?g ! 0 = GoSpace 50" by code_simp
  have old: "position (heap ?g 0) = 23" by code_simp
  have new: "position (Player_move_player 3 (int (length (gameboard ?g))) (heap ?g 0)) = 1"
    by code_simp
  have landed: "list_index (gameboard ?g) 1 = Some 1" by code_simp
  have sp: "gameboard ?g ! 1 = PropertySpace 10 (Some 1)" by code_simp
  have bal: "account_balance (heap ?g 0) \<noteq> 0" using balA by simp
  have "account_balance (heap (snd (move_player ''A'' 3 ?g)) 0) =
     (let b = account_balance (heap ?g 0) + (if (1::int) < 23 then 50 else 0)
      in case list_index (gameboard ?g) 1 of
           None \<Rightarrow> b
         | Some i \<Rightarrow>
             (case gameboard ?g ! i of
                GoSpace p \<Rightarrow> b
              | PropertySpace rent owner \<Rightarrow>
                  (case owner of
                     None \<Rightarrow> b
                   | Some ow \<Rightarrow> if ow \<noteq> 0 then (if b < rent then 0 else b - rent) else b)))"
    by (rule move_player_go_payout[OF reg bal _ _ go old[symmetric] new[symmetric] refl]) simp_all
  then have "account_balance (heap (snd (move_player ''A'' 3 ?g)) 0) = 140"
    using balA landed sp by simp
  with reg balA old new go0 sp show ?thesis by blast
qed

subsection \<open>The money of the registered players\<close>

lemma total_update_notin:
  "r \<notin> set rs \<Longrightarrow>
   (\<Sum>x\<leftarrow>rs. account_balance ((h(r := p)) x)) = (\<Sum>x\<leftarrow>rs. account_balance (h x))"
  by (induction rs) auto

lemma total_update_in:
  "distinct rs \<Longrightarrow> r \<in> set rs \<Longrightarrow>
   (\<Sum>x\<leftarrow>rs. account_balance ((h(r := p)) x)) =
   (\<Sum>x\<leftarrow>rs. account_balance (h x)) - account_balance (h r) + account_balance p"
proof (induction rs)
  case Nil
  then show ?case by simp
next
  case (Cons a rs)
  show ?case
  proof (cases "a = r")
    case True
    then have "r \<notin> set rs" using Cons.prems(1) by auto
    then show ?thesis using True total_update_notin[of r rs h p] by simp
  next
    case False
    then have "r \<in> set rs" using Cons.prems(2) by auto
    then show ?thesis using False Cons by simp
  qed
qed

lemma total_balance_heap:
  assumes "distinct (map snd (players g))" and "r \<in> snd ` set (players g)"
  shows "total_balance (g\<lparr>heap := (heap g)(r := p)\<rparr>) =
     total_balance g - account_balance (heap g r) + account_balance p"
  using total_update_in[of "map snd (players g)" r "heap g" p] assms
  by (simp add: total_balance_def)

lemma total_balance_gameboard: "total_balance (g\<lparr>gameboard := spaces\<rparr>) = total_balance g"
  by (simp add: total_balance_def)

text \<open>
  C10, as amended: with the same preconditions, in a registry whose objects are
  distinct, and provided that the owner of the space landed on (if it has one) is a
  registered player, the money of the registered players changes by exactly the payout
  of the GO space when the new position is less than the old one, and not at all
  otherwise; the registry itself is unchanged.
\<close>

theorem move_player_total:
  assumes reg: "map_of (players g) nm = Some r"
    and bal: "account_balance (heap g r) \<noteq> 0"
    and n: "1 \<le> n" "n \<le> 6"
    and go: "gameboard g = GoSpace go_payout # spaces"
    and old: "old = position (heap g r)"
    and new: "new = position (Player_move_player n (int (length (gameboard g))) (heap g r))"
    and refs: "distinct (map snd (players g))"
    and owner_registered:
      "\<forall>i rent ow. list_index (gameboard g) new = Some i \<and> gameboard g ! i = PropertySpace rent (Some ow)
         \<longrightarrow> ow \<in> snd ` set (players g)"
    and after: "g' = snd (move_player nm n g)"
  shows "players g' = players g
    \<and> total_balance g' = total_balance g + (if new < old then go_payout else 0)"
proof -
  define b where "b = account_balance (heap g r) + (if new < old then go_payout else 0)"
  define g2 where "g2 = g\<lparr>heap := (heap g)(r := (heap g r)\<lparr>position := new, account_balance := b\<rparr>)\<rparr>"
  have mv: "g' = snd (landing new r g2)"
    unfolding b_def g2_def after by (simp add: move_player_active[OF reg bal n go old new])
  have r_in: "r \<in> snd ` set (players g)"
    using map_of_SomeD[OF reg] by force
  have t2: "total_balance g2 = total_balance g + (if new < old then go_payout else 0)"
    unfolding g2_def using total_balance_heap[OF refs r_in] by (simp add: b_def)
  have g2: "players g2 = players g" "gameboard g2 = gameboard g" "account_balance (heap g2 r) = b"
    by (simp_all add: g2_def)
  have refs2: "distinct (map snd (players g2))" using refs g2 by simp
  have r_in2: "r \<in> snd ` set (players g2)" using r_in g2 by simp
  have paid: "players (pay_rent r ow rent g2) = players g
      \<and> total_balance (pay_rent r ow rent g2) = total_balance g2"
    if ow: "ow \<noteq> r" "ow \<in> snd ` set (players g)" for ow rent
  proof -
    have two: "total_balance (g2\<lparr>heap := (heap g2)(ow := p, r := q)\<rparr>) = total_balance g2"
      if "account_balance p + account_balance q = account_balance (heap g2 ow) + account_balance (heap g2 r)"
      for p q
    proof -
      let ?g3 = "g2\<lparr>heap := (heap g2)(ow := p)\<rparr>"
      have "total_balance ?g3 = total_balance g2 - account_balance (heap g2 ow) + account_balance p"
        using total_balance_heap[OF refs2, of ow p] ow(2) g2 by simp
      moreover have "total_balance (?g3\<lparr>heap := (heap ?g3)(r := q)\<rparr>) =
          total_balance ?g3 - account_balance (heap ?g3 r) + account_balance q"
        by (rule total_balance_heap) (use refs2 r_in2 in simp_all)
      ultimately show ?thesis using that ow(1) by simp
    qed
    show ?thesis
    proof (cases "b < rent")
      case True
      then have lt: "account_balance (heap g2 r) < rent" using g2 by simp
      show ?thesis
        using g2 by (simp add: pay_rent_bankrupt[OF lt ow(1)] total_balance_gameboard two)
    next
      case False
      then have ge: "rent \<le> account_balance (heap g2 r)" using g2 by simp
      show ?thesis
        using g2 by (simp add: pay_rent_transfer[OF ge ow(1)] two)
    qed
  qed
  have "players (snd (landing new r g2)) = players g
      \<and> total_balance (snd (landing new r g2)) = total_balance g2"
  proof (cases "list_index (gameboard g) new")
    case None
    then show ?thesis using g2 by (simp add: landing_def)
  next
    case idx: (Some i)
    show ?thesis
    proof (cases "gameboard g ! i")
      case (GoSpace p)
      then show ?thesis using idx g2 by (simp add: landing_def)
    next
      case (PropertySpace rent owner)
      show ?thesis
      proof (cases owner)
        case None
        then show ?thesis using idx PropertySpace g2 by (simp add: landing_def)
      next
        case (Some ow)
        show ?thesis
        proof (cases "ow = r")
          case True
          then show ?thesis using idx PropertySpace Some g2 by (simp add: landing_def)
        next
          case False
          have "ow \<in> snd ` set (players g)"
            using owner_registered idx PropertySpace Some by blast
          then show ?thesis
            using paid[OF False] False idx PropertySpace Some g2 by (simp add: landing_def)
        qed
      qed
    qed
  qed
  then show ?thesis using mv t2 by simp
qed

text \<open>
  C10 as stated fails once a name has been registered again: space 1 belongs to the
  replaced object of A, which is no longer registered. B lands on it without passing GO
  and pays 10, and the money of the registered players drops from 200 to 190.
\<close>

theorem move_player_total_counterexample:
  "leak_state = run leak_ops RealEstateGame_init
   \<and> map_of (players leak_state) ''B'' = Some 1
   \<and> account_balance (heap leak_state 1) = 100
   \<and> position (heap leak_state 1) = 0
   \<and> position (heap (snd (move_player ''B'' 1 leak_state)) 1) = 1
   \<and> total_balance leak_state = 200
   \<and> total_balance (snd (move_player ''B'' 1 leak_state)) = 190"
proof -
  have a: "map_of (players leak_state) ''B'' = Some 1" by code_simp
  have b: "account_balance (heap leak_state 1) = 100" by code_simp
  have c: "position (heap leak_state 1) = 0" by code_simp
  have d: "position (heap (snd (move_player ''B'' 1 leak_state)) 1) = 1" by code_simp
  have e: "total_balance leak_state = 200" by code_simp
  have f: "total_balance (snd (move_player ''B'' 1 leak_state)) = 190" by code_simp
  from a b c d e f show ?thesis by (simp add: leak_state_def)
qed

text \<open>
  From space 23 a move of 3 passes GO and pays rent to B: the total goes from 150 to
  200. The next move of 1 does not pass GO: the total stays 200.
\<close>

theorem move_player_total_witness:
  "map_of (players wrap_state) ''A'' = Some 0
   \<and> position (heap wrap_state 0) = 23
   \<and> position (Player_move_player 3 (int (length (gameboard wrap_state))) (heap wrap_state 0)) = 1
   \<and> gameboard wrap_state ! 0 = GoSpace 50
   \<and> total_balance wrap_state = 150
   \<and> total_balance (snd (move_player ''A'' 3 wrap_state)) = 200
   \<and> position (heap (snd (move_player ''A'' 3 wrap_state)) 0) = 1
   \<and> position (Player_move_player 1 (int (length (gameboard (snd (move_player ''A'' 3 wrap_state)))))
        (heap (snd (move_player ''A'' 3 wrap_state)) 0)) = 2
   \<and> total_balance (snd (move_player ''A'' 1 (snd (move_player ''A'' 3 wrap_state)))) = 200"
proof -
  let ?g = wrap_state
  have reg: "map_of (players ?g) ''A'' = Some 0" by code_simp
  have bal: "account_balance (heap ?g 0) \<noteq> 0" by code_simp
  have go: "gameboard ?g = GoSpace 50 # tl (gameboard ?g)" by code_simp
  have go0: "gameboard ?g ! 0 = GoSpace 50" by code_simp
  have old: "position (heap ?g 0) = 23" by code_simp
  have new: "position (Player_move_player 3 (int (length (gameboard ?g))) (heap ?g 0)) = 1"
    by code_simp
  have ps: "players ?g = [(''A'', 0), (''B'', 1)]" by code_simp
  have refs: "distinct (map snd (players ?g))" using ps by simp
  have l1: "list_index (gameboard ?g) 1 = Some 1" by code_simp
  have sp: "gameboard ?g ! 1 = PropertySpace 10 (Some 1)" by code_simp
  have own: "\<forall>i rent ow. list_index (gameboard ?g) 1 = Some i \<and> gameboard ?g ! i = PropertySpace rent (Some ow)
         \<longrightarrow> ow \<in> snd ` set (players ?g)"
    using l1 sp ps by simp
  have three: "(1::int) \<le> 3" "(3::int) \<le> 6" by simp_all
  have t0: "total_balance ?g = 150" by code_simp
  from move_player_total[OF reg bal three go old[symmetric] new[symmetric] refs own refl] t0
  have t1: "total_balance (snd (move_player ''A'' 3 ?g)) = 200" by simp
  let ?h = "snd (move_player ''A'' 3 wrap_state)"
  have reg': "map_of (players ?h) ''A'' = Some 0" by code_simp
  have bal': "account_balance (heap ?h 0) \<noteq> 0" by code_simp
  have go': "gameboard ?h = GoSpace 50 # tl (gameboard ?h)" by code_simp
  have old': "position (heap ?h 0) = 1" by code_simp
  have new': "position (Player_move_player 1 (int (length (gameboard ?h))) (heap ?h 0)) = 2"
    by code_simp
  have ps': "players ?h = [(''A'', 0), (''B'', 1)]" by code_simp
  have refs': "distinct (map snd (players ?h))" using ps' by simp
  have l2: "list_index (gameboard ?h) 2 = Some 2" by code_simp
  have sp': "gameboard ?h ! 2 = PropertySpace 10 None" by code_simp
  have own': "\<forall>i rent ow. list_index (gameboard ?h) 2 = Some i \<and> gameboard ?h ! i = PropertySpace rent (Some ow)
         \<longrightarrow> ow \<in> snd ` set (players ?h)"
    using l2 sp' by simp
  have one: "(1::int) \<le> 1" "(1::int) \<le> 6" by simp_all
  from move_player_total[OF reg' bal' one go' old'[symmetric] new'[symmetric] refs' own' refl] t1
  have t2: "total_balance (snd (move_player ''A'' 1 ?h)) = 200" by simp
  from reg old new go0 t0 t1 old' new' t2 show ?thesis by blast
qed

subsection \<open>Positions\<close>

lemma wrap_mod:
  fixes k n :: int
  assumes "0 \<le> k" "k < 25" "1 \<le> n" "n \<le> 6"
  shows "(if 25 \<le> k + n then k + n - 25 else k + n) = (k + n) mod 25"
proof (cases "25 \<le> k + n")
  case True
  have "(k + n - 25) mod 25 = (k + n) mod 25"
    by (rule minus_mod_self2)
  moreover have "(k + n - 25) mod 25 = k + n - 25"
    using True assms by (intro mod_pos_pos_trivial) linarith+
  ultimately show ?thesis using True by simp
next
  case False
  then have "(k + n) mod 25 = k + n"
    using assms by (intro mod_pos_pos_trivial) linarith+
  then show ?thesis using False by simp
qed

lemma Player_move_player_mod:
  assumes "0 \<le> position p" "position p < 25" "1 \<le> n" "n \<le> 6"
  shows "position (Player_move_player n 25 p) = (position p + n) mod 25"
  using wrap_mod[OF assms] by (simp add: Player_move_player_def Let_def split: if_splits)

lemma pay_rent_position: "position (heap (pay_rent r ow rent g) x) = position (heap g x)"
  by (simp add: pay_rent_def remove_player_def Let_def add_account_balance_def
      sub_account_balance_def)

lemma pay_rent_length: "length (gameboard (pay_rent r ow rent g)) = length (gameboard g)"
  by (simp add: pay_rent_def remove_player_def Let_def)

lemma pay_rent_players: "players (pay_rent r ow rent g) = players g"
  by (simp add: pay_rent_def remove_player_def Let_def)

lemma landing_position: "position (heap (snd (landing new r g)) x) = position (heap g x)"
  by (simp add: landing_def pay_rent_position split: option.splits BoardSpace.splits)

lemma landing_length: "length (gameboard (snd (landing new r g))) = length (gameboard g)"
  by (simp add: landing_def pay_rent_length split: option.splits BoardSpace.splits)

lemma landing_players: "players (snd (landing new r g)) = players g"
  by (simp add: landing_def pay_rent_players split: option.splits BoardSpace.splits)

lemma pass_go_same:
  assumes "pass_go old new r g = Inr g'"
  shows "position (heap g' x) = position (heap g x) \<and> gameboard g' = gameboard g
    \<and> players g' = players g"
  using assms
  by (auto simp: pass_go_def add_account_balance_def split: if_splits option.splits sum.splits)

lemma move_player_same:
  "players (snd (move_player nm n g)) = players g
   \<and> length (gameboard (snd (move_player nm n g))) = length (gameboard g)"
proof (cases "map_of (players g) nm")
  case None
  then show ?thesis by (simp add: move_player_def)
next
  case (Some r)
  let ?g1 = "g\<lparr>heap := (heap g)(r := Player_move_player n (int (length (gameboard g))) (heap g r))\<rparr>"
  show ?thesis
  proof (cases "pass_go (get_position (heap g r)) (get_position (heap ?g1 r)) r ?g1")
    case (Inl e)
    then show ?thesis using Some by (simp add: move_player_def Let_def)
  next
    case (Inr g2)
    then show ?thesis
      using Some pass_go_same[OF Inr] landing_players[of _ r g2] landing_length[of _ r g2]
      by (simp add: move_player_def Let_def)
  qed
qed

lemma moved_positions:
  assumes reg: "map_of (players g) nm = Some r"
    and bal: "account_balance (heap g r) \<noteq> 0"
    and n: "1 \<le> n" "n \<le> 6"
  shows "position (heap (snd (move_player nm n g)) x) =
     (if x = r then position (Player_move_player n (int (length (gameboard g))) (heap g r))
      else position (heap g x))"
proof -
  let ?g1 = "g\<lparr>heap := (heap g)(r := Player_move_player n (int (length (gameboard g))) (heap g r))\<rparr>"
  show ?thesis
  proof (cases "pass_go (get_position (heap g r)) (get_position (heap ?g1 r)) r ?g1")
    case (Inl e)
    then show ?thesis using reg bal n
      by (simp add: move_player_def Let_def get_account_balance_def)
  next
    case (Inr g2)
    then show ?thesis
      using reg bal n pass_go_same[OF Inr, of x] landing_position[of _ r g2 x]
      by (simp add: move_player_def Let_def get_account_balance_def)
  qed
qed

lemma move_player_idle:
  assumes "map_of (players g) nm = None \<or> (\<exists>r. map_of (players g) nm = Some r \<and>
     (account_balance (heap g r) = 0 \<or> n < 1 \<or> 6 < n))"
  shows "snd (move_player nm n g) = g"
  using assms by (auto simp: move_player_def get_account_balance_def)

lemma on_board_move_player:
  assumes "on_board g"
  shows "on_board (snd (move_player nm n g))"
proof (cases "\<exists>r. map_of (players g) nm = Some r \<and> account_balance (heap g r) \<noteq> 0 \<and> 1 \<le> n \<and> n \<le> 6")
  case True
  then obtain r where r: "map_of (players g) nm = Some r" "account_balance (heap g r) \<noteq> 0"
    "1 \<le> n" "n \<le> 6" by blast
  have len: "int (length (gameboard g)) = 25" using assms by (simp add: on_board_def)
  have "0 \<le> position (heap g r)" "position (heap g r) < 25"
    using assms by (simp_all add: on_board_def)
  then have "position (Player_move_player n 25 (heap g r)) = (position (heap g r) + n) mod 25"
    using r by (simp add: Player_move_player_mod)
  then have "0 \<le> position (Player_move_player n 25 (heap g r))
      \<and> position (Player_move_player n 25 (heap g r)) < 25"
    by simp
  then show ?thesis
    using assms move_player_same[of nm n g] len
    by (simp add: on_board_def moved_positions[OF r])
next
  case False
  then have "snd (move_player nm n g) = g"
    by (intro move_player_idle) (cases "map_of (players g) nm"; force)
  then show ?thesis using assms by simp
qed

lemma on_board_create_player: "on_board g \<Longrightarrow> on_board (create_player nm bal g)"
  by (simp add: on_board_def create_player_def Player_init_def)

lemma before_board_create_player: "before_board g \<Longrightarrow> before_board (create_player nm bal g)"
  by (simp add: before_board_def create_player_def Player_init_def)

lemma remove_player_position: "position (heap (remove_player r g) x) = position (heap g x)"
  by (simp add: remove_player_def sub_account_balance_def)

lemma on_board_remove_player: "on_board g \<Longrightarrow> on_board (remove_player r g)"
  by (simp add: on_board_def remove_player_position) (simp add: remove_player_def)

lemma before_board_remove_player: "before_board g \<Longrightarrow> before_board (remove_player r g)"
  by (simp add: before_board_def remove_player_position) (simp add: remove_player_def)

lemma buy_space_position:
  "position (heap (snd (buy_space nm g)) x) = position (heap g x)
   \<and> length (gameboard (snd (buy_space nm g))) = length (gameboard g)
   \<and> players (snd (buy_space nm g)) = players g"
  by (simp add: buy_space_def Let_def get_player_account_balance_def sub_account_balance_def
      split: option.splits BoardSpace.splits)

lemma on_board_buy_space: "on_board g \<Longrightarrow> on_board (snd (buy_space nm g))"
  by (simp add: on_board_def buy_space_position)

lemma before_board_buy_space: "before_board g \<Longrightarrow> snd (buy_space nm g) = g"
  by (simp add: before_board_def buy_space_def list_index_def get_position_def
      split: option.splits)

lemma on_board_create_spaces:
  assumes "before_board g" and "24 \<le> length rent_amounts"
  shows "on_board (snd (create_spaces go_payout rent_amounts g))"
  using assms by (simp add: before_board_def on_board_def create_spaces_snd)

lemma on_board_exec: "on_board g \<Longrightarrow> \<not> is_create_spaces x \<Longrightarrow> on_board (exec x g)"
  by (cases x)
     (simp_all add: on_board_create_player on_board_buy_space on_board_move_player
        on_board_remove_player)

lemma before_board_exec:
  "before_board g \<Longrightarrow> \<not> is_create_spaces x \<Longrightarrow> \<not> is_move_player x \<Longrightarrow> before_board (exec x g)"
  by (cases x)
     (simp_all add: before_board_create_player before_board_buy_space before_board_remove_player)

lemma on_board_run: "on_board g \<Longrightarrow> list_all (\<lambda>x. \<not> is_create_spaces x) ops \<Longrightarrow> on_board (run ops g)"
  unfolding run_def by (induction ops arbitrary: g) (simp_all add: on_board_exec)

lemma before_board_run:
  "before_board g \<Longrightarrow> list_all (\<lambda>x. \<not> is_create_spaces x \<and> \<not> is_move_player x) ops \<Longrightarrow>
   before_board (run ops g)"
  unfolding run_def by (induction ops arbitrary: g) (simp_all add: before_board_exec)

lemma before_board_init: "before_board RealEstateGame_init"
  by (simp add: before_board_def RealEstateGame_init_def Player_init_def)

lemma run_append: "run (xs @ ys) g = run ys (run xs g)"
  by (simp add: run_def)

lemma on_board_driver:
  assumes "list_all (\<lambda>x. \<not> is_create_spaces x \<and> \<not> is_move_player x) prelude"
    and "24 \<le> length rent_amounts"
    and "list_all (\<lambda>x. \<not> is_create_spaces x) turns"
  shows "on_board (run (prelude @ CreateSpaces go_payout rent_amounts # turns) RealEstateGame_init)"
proof -
  have "before_board (run prelude RealEstateGame_init)"
    using before_board_init assms(1) by (rule before_board_run)
  then have "on_board (exec (CreateSpaces go_payout rent_amounts) (run prelude RealEstateGame_init))"
    using assms(2) by (simp add: on_board_create_spaces)
  then have "on_board (run turns (exec (CreateSpaces go_payout rent_amounts) (run prelude RealEstateGame_init)))"
    using assms(3) by (rule on_board_run)
  then show ?thesis by (simp add: run_def)
qed

text \<open>
  C5, as amended: on the board of 25 spaces, provided that every registered player
  stands on a position from 0 to 24, a move of \<open>n\<close> spaces, \<open>1 \<le> n \<le> 6\<close>, by a
  registered player with a balance that is not zero ends on position
  \<open>(old + n) mod 25\<close>, which is what the single conditional subtraction of
  \<open>Player.move_player\<close> computes, and every registered player stands on a position from
  0 to 24 afterwards. The proviso holds in every state of a game in which nobody moves
  before the one call of \<open>create_spaces\<close> with at least 24 rents (players may be
  registered before it, any other calls may follow it).
\<close>

theorem move_player_position:
  "(map_of (players g) nm = Some r \<and> account_balance (heap g r) \<noteq> 0 \<and> 1 \<le> n \<and> n \<le> 6
      \<and> length (gameboard g) = 25
      \<and> (\<forall>(nm', r') \<in> set (players g). 0 \<le> position (heap g r') \<and> position (heap g r') < 25)
    \<longrightarrow> position (heap (snd (move_player nm n g)) r) = (position (heap g r) + n) mod 25
      \<and> position (Player_move_player n 25 (heap g r)) = (position (heap g r) + n) mod 25
      \<and> (\<forall>(nm', r') \<in> set (players (snd (move_player nm n g))).
           0 \<le> position (heap (snd (move_player nm n g)) r')
           \<and> position (heap (snd (move_player nm n g)) r') < 25))
   \<and> (list_all (\<lambda>x. \<not> is_create_spaces x \<and> \<not> is_move_player x) prelude
      \<and> 24 \<le> length rent_amounts \<and> list_all (\<lambda>x. \<not> is_create_spaces x) turns
    \<longrightarrow> length (gameboard (run (prelude @ CreateSpaces go_payout rent_amounts # turns) RealEstateGame_init)) = 25
      \<and> (\<forall>(nm', r') \<in> set (players (run (prelude @ CreateSpaces go_payout rent_amounts # turns) RealEstateGame_init)).
           0 \<le> position (heap (run (prelude @ CreateSpaces go_payout rent_amounts # turns) RealEstateGame_init) r')
           \<and> position (heap (run (prelude @ CreateSpaces go_payout rent_amounts # turns) RealEstateGame_init) r') < 25))"
proof (intro conjI impI)
  assume h: "map_of (players g) nm = Some r \<and> account_balance (heap g r) \<noteq> 0 \<and> 1 \<le> n \<and> n \<le> 6
      \<and> length (gameboard g) = 25
      \<and> (\<forall>(nm', r') \<in> set (players g). 0 \<le> position (heap g r') \<and> position (heap g r') < 25)"
  then have reg: "map_of (players g) nm = Some r" and bal: "account_balance (heap g r) \<noteq> 0"
    and n: "1 \<le> n" "n \<le> 6" and len: "int (length (gameboard g)) = 25"
    and pos: "\<forall>(nm', r') \<in> set (players g). 0 \<le> position (heap g r') \<and> position (heap g r') < 25"
    by simp_all
  have "(nm, r) \<in> set (players g)" using reg by (rule map_of_SomeD)
  then have r: "0 \<le> position (heap g r)" "position (heap g r) < 25" using pos by auto
  show m: "position (Player_move_player n 25 (heap g r)) = (position (heap g r) + n) mod 25"
    using r n by (rule Player_move_player_mod)
  show "position (heap (snd (move_player nm n g)) r) = (position (heap g r) + n) mod 25"
    using m len by (simp add: moved_positions[OF reg bal n])
  have "0 \<le> (position (heap g r) + n) mod 25 \<and> (position (heap g r) + n) mod 25 < 25"
    by simp
  then show "\<forall>(nm', r') \<in> set (players (snd (move_player nm n g))).
           0 \<le> position (heap (snd (move_player nm n g)) r')
           \<and> position (heap (snd (move_player nm n g)) r') < 25"
    using pos m len move_player_same[of nm n g]
    by (auto simp: moved_positions[OF reg bal n])
next
  let ?g = "run (prelude @ CreateSpaces go_payout rent_amounts # turns) RealEstateGame_init"
  assume "list_all (\<lambda>x. \<not> is_create_spaces x \<and> \<not> is_move_player x) prelude
      \<and> 24 \<le> length rent_amounts \<and> list_all (\<lambda>x. \<not> is_create_spaces x) turns"
  then have ob: "on_board ?g" by (simp add: on_board_driver)
  then show "length (gameboard ?g) = 25" by (simp add: on_board_def)
  from ob show "\<forall>(nm', r') \<in> set (players ?g).
      0 \<le> position (heap ?g r') \<and> position (heap ?g r') < 25"
    by (simp add: on_board_def)
qed

text \<open>
  C5 as stated fails on the board of 25 spaces for a player who moved before the board
  was built: from position 60 a move of 1 ends on position 36, neither 61 mod 25 = 11 nor
  a position of the board.
\<close>

theorem move_player_position_counterexample:
  "length (gameboard early_state) = 25
   \<and> map_of (players early_state) ''A'' = Some 0
   \<and> account_balance (heap early_state 0) = 100
   \<and> position (heap early_state 0) = 60
   \<and> position (heap (snd (move_player ''A'' 1 early_state)) 0) = 36
   \<and> (60 + 1) mod 25 = (11::int)"
  by code_simp

text \<open>
  From space 23 a move of 3 ends on space 1; and a game of two moves after the board is
  built.
\<close>

theorem move_player_position_witness:
  "map_of (players wrap_state) ''A'' = Some 0
   \<and> account_balance (heap wrap_state 0) \<noteq> 0
   \<and> length (gameboard wrap_state) = 25
   \<and> position (heap wrap_state 0) = 23
   \<and> position (heap (snd (move_player ''A'' 3 wrap_state)) 0) = 1
   \<and> position (Player_move_player 3 25 (heap wrap_state 0)) = 1
   \<and> position (heap (snd (move_player ''A'' 3 wrap_state)) 1) < 25
   \<and> list_all (\<lambda>x. \<not> is_create_spaces x \<and> \<not> is_move_player x) [CreatePlayer ''A'' 100]
   \<and> list_all (\<lambda>x. \<not> is_create_spaces x) [MovePlayer ''A'' 6, MovePlayer ''A'' 6]
   \<and> (''A'', 0) \<in> set (players (run ([CreatePlayer ''A'' 100] @ CreateSpaces 50 (replicate 24 10)
          # [MovePlayer ''A'' 6, MovePlayer ''A'' 6]) RealEstateGame_init))
   \<and> position (heap (run ([CreatePlayer ''A'' 100] @ CreateSpaces 50 (replicate 24 10)
          # [MovePlayer ''A'' 6, MovePlayer ''A'' 6]) RealEstateGame_init) 0) < 25"
proof -
  let ?g = wrap_state
  let ?h = "run ([CreatePlayer ''A'' 100] @ CreateSpaces 50 (replicate 24 10)
          # [MovePlayer ''A'' 6, MovePlayer ''A'' 6]) RealEstateGame_init"
  have reg: "map_of (players ?g) ''A'' = Some 0" by code_simp
  have bal: "account_balance (heap ?g 0) \<noteq> 0" by code_simp
  have len: "length (gameboard ?g) = 25" by code_simp
  have old: "position (heap ?g 0) = 23" by code_simp
  have ps: "players ?g = [(''A'', 0), (''B'', 1)]" by code_simp
  have posB: "position (heap ?g 1) = 1" by code_simp
  have pos: "\<forall>(nm', r') \<in> set (players ?g). 0 \<le> position (heap ?g r') \<and> position (heap ?g r') < 25"
    using ps old posB by simp
  have same: "players (snd (move_player ''A'' 3 ?g)) = players ?g"
    by (simp add: move_player_same)
  from move_player_position[of ?g "''A''" 0 3] reg bal len pos
  have step: "position (heap (snd (move_player ''A'' 3 ?g)) 0) = (position (heap ?g 0) + 3) mod 25
      \<and> position (Player_move_player 3 25 (heap ?g 0)) = (position (heap ?g 0) + 3) mod 25
      \<and> (\<forall>(nm', r') \<in> set (players (snd (move_player ''A'' 3 ?g))).
           0 \<le> position (heap (snd (move_player ''A'' 3 ?g)) r')
           \<and> position (heap (snd (move_player ''A'' 3 ?g)) r') < 25)"
    by simp
  then have s1: "position (heap (snd (move_player ''A'' 3 ?g)) 0) = 1"
    and s2: "position (Player_move_player 3 25 (heap ?g 0)) = 1"
    using old by simp_all
  from step same ps have s3: "position (heap (snd (move_player ''A'' 3 ?g)) 1) < 25"
    by simp
  have pre: "list_all (\<lambda>x. \<not> is_create_spaces x \<and> \<not> is_move_player x) [CreatePlayer ''A'' 100]"
    by simp
  have turns: "list_all (\<lambda>x. \<not> is_create_spaces x) [MovePlayer ''A'' 6, MovePlayer ''A'' 6]"
    by simp
  have rents: "24 \<le> length (replicate 24 (10::int))" by simp
  have inh: "(''A'', 0) \<in> set (players ?h)" by code_simp
  from move_player_position[of _ _ _ _ "[CreatePlayer ''A'' 100]" "replicate 24 10"
      "[MovePlayer ''A'' 6, MovePlayer ''A'' 6]" 50] pre turns rents
  have "\<forall>(nm', r') \<in> set (players ?h). 0 \<le> position (heap ?h r') \<and> position (heap ?h r') < 25"
    by blast
  with inh have s4: "position (heap ?h 0) < 25" by blast
  from reg bal len old s1 s2 s3 pre turns inh s4 show ?thesis by blast
qed

subsection \<open>Buying the space a player stands on\<close>

text \<open>
  C3: for a registered player standing on a space of the board, \<open>buy_space\<close> returns
  True exactly when that space is a property without owner and the balance is strictly
  greater than five times its rent. Then the balance drops by exactly that price and the
  player becomes the owner of the space; nothing else changes. In every other case (the
  GO space, a space with an owner, a balance not strictly greater than the price) it
  returns False and changes nothing.
\<close>

theorem buy_space_result:
  assumes reg: "map_of (players g) nm = Some r"
    and here: "list_index (gameboard g) (position (heap g r)) = Some i"
  shows "fst (buy_space nm g) =
       Inr (\<exists>rent. gameboard g ! i = PropertySpace rent None \<and> rent * 5 < account_balance (heap g r))
    \<and> (\<forall>rent. gameboard g ! i = PropertySpace rent None \<and> rent * 5 < account_balance (heap g r) \<longrightarrow>
          snd (buy_space nm g) =
            g\<lparr>gameboard := (gameboard g)[i := PropertySpace rent (Some r)],
              heap := (heap g)(r := (heap g r)\<lparr>account_balance := account_balance (heap g r) - rent * 5\<rparr>)\<rparr>)
    \<and> (fst (buy_space nm g) = Inr False \<longrightarrow> snd (buy_space nm g) = g)
    \<and> ((\<exists>p. gameboard g ! i = GoSpace p) \<longrightarrow> fst (buy_space nm g) = Inr False)
    \<and> ((\<exists>rent ow. gameboard g ! i = PropertySpace rent (Some ow)) \<longrightarrow> fst (buy_space nm g) = Inr False)
    \<and> ((\<exists>rent owner. gameboard g ! i = PropertySpace rent owner \<and> account_balance (heap g r) \<le> rent * 5)
          \<longrightarrow> fst (buy_space nm g) = Inr False)"
proof (cases "gameboard g ! i")
  case (GoSpace p)
  then show ?thesis using reg here by (simp add: buy_space_def get_position_def)
next
  case (PropertySpace rent owner)
  show ?thesis
  proof (cases owner)
    case (Some ow)
    then show ?thesis using reg here PropertySpace by (simp add: buy_space_def get_position_def)
  next
    case None
    show ?thesis
    proof (cases "rent * 5 < account_balance (heap g r)")
      case True
      then show ?thesis
        using reg here PropertySpace None
        by (simp add: buy_space_def get_position_def get_player_account_balance_def
            get_account_balance_def sub_account_balance_def)
    next
      case False
      then show ?thesis
        using reg here PropertySpace None
        by (simp add: buy_space_def get_position_def get_player_account_balance_def
            get_account_balance_def)
    qed
  qed
qed

text \<open>
  D buys space 3 with 51 (price 50) and keeps 1; C with exactly 50 cannot buy space 2;
  B cannot buy A's space 1; E cannot buy GO.
\<close>

theorem buy_space_result_witness:
  "map_of (players buy_state) ''D'' = Some 3
   \<and> list_index (gameboard buy_state) (position (heap buy_state 3)) = Some 3
   \<and> fst (buy_space ''D'' buy_state) = Inr True
   \<and> account_balance (heap buy_state 3) = 51
   \<and> account_balance (heap (snd (buy_space ''D'' buy_state)) 3) = 1
   \<and> gameboard (snd (buy_space ''D'' buy_state)) ! 3 = PropertySpace 10 (Some 3)
   \<and> account_balance (heap buy_state 2) = 50
   \<and> fst (buy_space ''C'' buy_state) = Inr False
   \<and> fst (buy_space ''B'' buy_state) = Inr False
   \<and> fst (buy_space ''E'' buy_state) = Inr False"
proof -
  let ?g = buy_state
  have regD: "map_of (players ?g) ''D'' = Some 3" by code_simp
  have hereD: "list_index (gameboard ?g) (position (heap ?g 3)) = Some 3" by code_simp
  have spD: "gameboard ?g ! 3 = PropertySpace 10 None" by code_simp
  have balD: "account_balance (heap ?g 3) = 51" by code_simp
  have len: "length (gameboard ?g) = 25" by code_simp
  note d = buy_space_result[OF regD hereD]
  from d spD balD have d1: "fst (buy_space ''D'' ?g) = Inr True" by simp
  from d spD balD have "snd (buy_space ''D'' ?g) =
      ?g\<lparr>gameboard := (gameboard ?g)[3 := PropertySpace 10 (Some 3)],
         heap := (heap ?g)(3 := (heap ?g 3)\<lparr>account_balance := account_balance (heap ?g 3) - 10 * 5\<rparr>)\<rparr>"
    by simp
  then have d2: "account_balance (heap (snd (buy_space ''D'' ?g)) 3) = 1"
    and d3: "gameboard (snd (buy_space ''D'' ?g)) ! 3 = PropertySpace 10 (Some 3)"
    using balD len by simp_all
  have regC: "map_of (players ?g) ''C'' = Some 2" by code_simp
  have hereC: "list_index (gameboard ?g) (position (heap ?g 2)) = Some 2" by code_simp
  have spC: "gameboard ?g ! 2 = PropertySpace 10 None" by code_simp
  have balC: "account_balance (heap ?g 2) = 50" by code_simp
  from buy_space_result[OF regC hereC] spC balC
  have c1: "fst (buy_space ''C'' ?g) = Inr False" by simp
  have regB: "map_of (players ?g) ''B'' = Some 1" by code_simp
  have hereB: "list_index (gameboard ?g) (position (heap ?g 1)) = Some 1" by code_simp
  have spB: "gameboard ?g ! 1 = PropertySpace 10 (Some 0)" by code_simp
  from buy_space_result[OF regB hereB] spB
  have b1: "fst (buy_space ''B'' ?g) = Inr False" by simp
  have regE: "map_of (players ?g) ''E'' = Some 4" by code_simp
  have hereE: "list_index (gameboard ?g) (position (heap ?g 4)) = Some 0" by code_simp
  have spE: "gameboard ?g ! 0 = GoSpace 50" by code_simp
  from buy_space_result[OF regE hereE] spE
  have e1: "fst (buy_space ''E'' ?g) = Inr False" by simp
  from regD hereD d1 balD d2 d3 balC c1 b1 e1 show ?thesis by blast
qed

subsection \<open>The end of the game\<close>

lemma collect_not_out_filter:
  assumes "set keys \<subseteq> fst ` set (players g)"
  shows "collect_not_out keys g acc = Inr (acc @ filter (active g) keys)"
  using assms
proof (induction keys arbitrary: acc)
  case Nil
  then show ?case by simp
next
  case (Cons k keys)
  then have "k \<in> fst ` set (players g)" by simp
  then obtain r where r: "map_of (players g) k = Some r"
    by (metis domD dom_map_of_conv_image_fst)
  show ?case
    using Cons r
    by (simp add: get_player_account_balance_def get_account_balance_def active_def)
qed

lemma check_game_over_filter:
  "check_game_over g =
     Inr (if length (filter (active g) (map fst (players g))) = 1
          then filter (active g) (map fst (players g)) ! 0 else [])"
  by (simp add: check_game_over_def collect_not_out_filter)

lemma active_registered: "active g nm \<Longrightarrow> nm \<in> set (map fst (players g))"
  by (auto simp: active_def split: option.splits dest: map_of_SomeD intro: rev_image_eqI)

text \<open>
  C7: in a registry with one entry for a name, \<open>check_game_over\<close> returns the name of
  the player with a balance that is not zero when there is exactly one such registered
  player, and the empty string in every other case (no player, none or several with a
  balance that is not zero). It never returns an error.
\<close>

theorem check_game_over_winner:
  assumes names: "distinct (map fst (players g))"
  shows "(\<forall>nm. active g nm \<and> (\<forall>other. active g other \<longrightarrow> other = nm) \<longrightarrow> check_game_over g = Inr nm)
    \<and> (\<not> (\<exists>nm. active g nm \<and> (\<forall>other. active g other \<longrightarrow> other = nm)) \<longrightarrow> check_game_over g = Inr [])"
proof -
  define l where "l = filter (active g) (map fst (players g))"
  have d: "distinct l" using names by (simp add: l_def)
  have s: "set l = {nm. active g nm}" using active_registered by (auto simp: l_def)
  have c: "check_game_over g = Inr (if length l = 1 then l ! 0 else [])"
    by (simp add: check_game_over_filter l_def)
  have one: "check_game_over g = Inr nm"
    if "active g nm" and "\<forall>other. active g other \<longrightarrow> other = nm" for nm
  proof -
    have "{x. active g x} = {nm}" using that by blast
    then have sl: "set l = {nm}" using s by simp
    have "card (set l) = length l" using d by (rule distinct_card)
    then have "length l = 1" using sl by simp
    then obtain x where x: "l = [x]" by (cases l) auto
    then have "x = nm" using sl by simp
    then show ?thesis using x c by simp
  qed
  have none: "check_game_over g = Inr []"
    if no: "\<not> (\<exists>nm. active g nm \<and> (\<forall>other. active g other \<longrightarrow> other = nm))"
  proof -
    have "length l \<noteq> 1"
    proof
      assume "length l = 1"
      then obtain x where x: "l = [x]" by (cases l) auto
      then have "{nm. active g nm} = {x}" using s by simp
      then have "active g x \<and> (\<forall>other. active g other \<longrightarrow> other = x)" by blast
      then show False using no by blast
    qed
    then show ?thesis using c by simp
  qed
  show ?thesis using one none by blast
qed

text \<open>
  The fifth scenario of the specification: after B's bankruptcy the winner is A; with
  both players in the game, and with no player at all, the result is the empty string.
\<close>

theorem check_game_over_winner_witness:
  "distinct (map fst (players (snd (move_player ''B'' 1 rent_state))))
   \<and> active (snd (move_player ''B'' 1 rent_state)) ''A''
   \<and> \<not> active (snd (move_player ''B'' 1 rent_state)) ''B''
   \<and> check_game_over (snd (move_player ''B'' 1 rent_state)) = Inr ''A''
   \<and> distinct (map fst (players rent_state))
   \<and> active rent_state ''A'' \<and> active rent_state ''B''
   \<and> check_game_over rent_state = Inr []
   \<and> distinct (map fst (players RealEstateGame_init))
   \<and> check_game_over RealEstateGame_init = Inr []"
proof -
  let ?g = "snd (move_player ''B'' 1 rent_state)"
  have ps: "players ?g = [(''A'', 0), (''B'', 1)]" by code_simp
  have balA: "account_balance (heap ?g 0) = 110" by code_simp
  have balB: "account_balance (heap ?g 1) = 0" by code_simp
  have d: "distinct (map fst (players ?g))" using ps by simp
  have a: "active ?g ''A''" using ps balA by (simp add: active_def)
  have b: "\<not> active ?g ''B''" using ps balB by (simp add: active_def)
  have only: "\<forall>other. active ?g other \<longrightarrow> other = ''A''"
    using ps balB by (simp add: active_def)
  from check_game_over_winner[OF d] a only have w: "check_game_over ?g = Inr ''A''"
    by blast
  have ps2: "players rent_state = [(''A'', 0), (''B'', 1)]" by code_simp
  have balA2: "account_balance (heap rent_state 0) = 100" by code_simp
  have balB2: "account_balance (heap rent_state 1) = 10" by code_simp
  have d2: "distinct (map fst (players rent_state))" using ps2 by simp
  have a2: "active rent_state ''A''" using ps2 balA2 by (simp add: active_def)
  have b2: "active rent_state ''B''" using ps2 balB2 by (simp add: active_def)
  have "\<not> (\<exists>nm. active rent_state nm \<and> (\<forall>other. active rent_state other \<longrightarrow> other = nm))"
  proof
    assume "\<exists>nm. active rent_state nm \<and> (\<forall>other. active rent_state other \<longrightarrow> other = nm)"
    then obtain nm where "\<forall>other. active rent_state other \<longrightarrow> other = nm" by blast
    then have "''A'' = nm" "''B'' = nm" using a2 b2 by blast+
    then have "''A'' = ''B''" by (rule trans[OF _ sym])
    then show False by simp
  qed
  with check_game_over_winner[OF d2] have w2: "check_game_over rent_state = Inr []"
    by blast
  have d3: "distinct (map fst (players RealEstateGame_init))"
    by (simp add: RealEstateGame_init_def)
  have "\<not> active RealEstateGame_init nm" for nm
    by (simp add: active_def RealEstateGame_init_def)
  with check_game_over_winner[OF d3] have w3: "check_game_over RealEstateGame_init = Inr []"
    by blast
  from d a b w d2 a2 b2 w2 d3 w3 show ?thesis by blast
qed

subsection \<open>Looking a player up\<close>

text \<open>
  C9, as amended: for a name that is not in the registry both lookups raise the KeyError
  of the dictionary subscript; for a registered name they return the balance and the
  position of the player. Neither changes the state: they return a value only.
\<close>

theorem player_lookup:
  "(map_of (players g) nm = None \<longrightarrow>
      get_player_account_balance nm g = Inl KeyError
      \<and> get_player_current_position nm g = Inl KeyError)
   \<and> (\<forall>r. map_of (players g) nm = Some r \<longrightarrow>
      get_player_account_balance nm g = Inr (account_balance (heap g r))
      \<and> get_player_current_position nm g = Inr (position (heap g r)))"
  by (simp add: get_player_account_balance_def get_player_current_position_def
      get_account_balance_def get_position_def)

text \<open>
  C9 as stated asks for a NotFound error that the engine itself defines and raises. The
  source raises nothing of its own: at a name that is not registered the result is the
  KeyError of Python's dictionary subscript, which leaves the method uncaught.
\<close>

theorem player_lookup_counterexample:
  "map_of (players RealEstateGame_init) ''Z'' = None
   \<and> get_player_account_balance ''Z'' RealEstateGame_init = Inl KeyError
   \<and> get_player_current_position ''Z'' RealEstateGame_init = Inl KeyError"
  by (simp add: get_player_account_balance_def get_player_current_position_def
      RealEstateGame_init_def)

text \<open>
  In the first scenario, Z is not registered; A has a balance of 50 on space 1.
\<close>

theorem player_lookup_witness:
  "map_of (players scenario_state) ''Z'' = None
   \<and> get_player_account_balance ''Z'' scenario_state = Inl KeyError
   \<and> get_player_current_position ''Z'' scenario_state = Inl KeyError
   \<and> map_of (players scenario_state) ''A'' = Some 0
   \<and> get_player_account_balance ''A'' scenario_state = Inr 50
   \<and> get_player_current_position ''A'' scenario_state = Inr 1"
proof -
  let ?g = scenario_state
  have z: "map_of (players ?g) ''Z'' = None" by code_simp
  have a: "map_of (players ?g) ''A'' = Some 0" by code_simp
  have balA: "account_balance (heap ?g 0) = 50" by code_simp
  have posA: "position (heap ?g 0) = 1" by code_simp
  from player_lookup[of ?g "''Z''"] z
  have z1: "get_player_account_balance ''Z'' ?g = Inl KeyError"
    and z2: "get_player_current_position ''Z'' ?g = Inl KeyError"
    by blast+
  from player_lookup[of ?g "''A''"] a balA posA
  have a1: "get_player_account_balance ''A'' ?g = Inr 50"
    and a2: "get_player_current_position ''A'' ?g = Inr 1"
    by simp_all
  from z z1 z2 a a1 a2 show ?thesis by blast
qed

subsection \<open>The registry is well formed in every reachable state\<close>

lemma dict_set_fresh: "map_of ps k = None \<Longrightarrow> dict_set ps k v = ps @ [(k, v)]"
  by (induction ps) (auto split: if_splits)

lemma dict_set_keys_subset: "set (map fst (dict_set ps k v)) \<subseteq> insert k (set (map fst ps))"
proof (induction ps)
  case Nil
  then show ?case by simp
next
  case (Cons a ps)
  then show ?case by (cases a) (simp, blast)
qed

lemma dict_set_keys: "distinct (map fst ps) \<Longrightarrow> distinct (map fst (dict_set ps k v))"
proof (induction ps)
  case Nil
  then show ?case by simp
next
  case (Cons a ps)
  obtain k' v' where a: "a = (k', v')" by (cases a)
  show ?case
  proof (cases "k' = k")
    case True
    then show ?thesis using Cons a by simp
  next
    case False
    have "k' \<notin> set (map fst (dict_set ps k v))"
      using dict_set_keys_subset[of ps k v] False Cons.prems a by auto
    then show ?thesis using Cons a False by simp
  qed
qed

lemma dict_set_values_subset: "set (map snd (dict_set ps k v)) \<subseteq> insert v (set (map snd ps))"
proof (induction ps)
  case Nil
  then show ?case by simp
next
  case (Cons a ps)
  then show ?case by (cases a) (simp, blast)
qed

lemma dict_set_values:
  "distinct (map snd ps) \<Longrightarrow> v \<notin> set (map snd ps) \<Longrightarrow> distinct (map snd (dict_set ps k v))"
proof (induction ps)
  case Nil
  then show ?case by simp
next
  case (Cons a ps)
  obtain k' v' where a: "a = (k', v')" by (cases a)
  show ?case
  proof (cases "k' = k")
    case True
    then show ?thesis using Cons a by simp
  next
    case False
    have "v' \<notin> set (map snd (dict_set ps k v))"
      using dict_set_values_subset[of ps k v] Cons.prems a by auto
    then show ?thesis using Cons a False by simp
  qed
qed

lemma registry_ok_create_player:
  assumes "registry_ok g"
  shows "registry_ok (create_player nm bal g)"
proof (cases "bal \<le> 0")
  case True
  then show ?thesis using assms by (simp add: create_player_def)
next
  case False
  have below: "\<forall>r \<in> set (map snd (players g)). r < next_ref g"
    using assms by (simp add: registry_ok_def)
  then have fresh: "next_ref g \<notin> set (map snd (players g))"
    by blast
  have "\<forall>r \<in> set (map snd (dict_set (players g) nm (next_ref g))). r < Suc (next_ref g)"
    using dict_set_values_subset[of "players g" nm "next_ref g"] below
    by (metis insertE less_Suc_eq subsetD)
  then show ?thesis
    using False assms fresh
    by (simp add: create_player_def registry_ok_def dict_set_keys dict_set_values)
qed

lemma remove_player_players: "players (remove_player r g) = players g \<and> next_ref (remove_player r g) = next_ref g"
  by (simp add: remove_player_def)

lemma buy_space_next_ref: "next_ref (snd (buy_space nm g)) = next_ref g"
  by (simp add: buy_space_def Let_def get_player_account_balance_def
      split: option.splits BoardSpace.splits)

lemma pay_rent_next_ref: "next_ref (pay_rent r ow rent g) = next_ref g"
  by (simp add: pay_rent_def remove_player_def Let_def)

lemma landing_next_ref: "next_ref (snd (landing new r g)) = next_ref g"
  by (simp add: landing_def pay_rent_next_ref split: option.splits BoardSpace.splits)

lemma pass_go_next_ref: "pass_go old new r g = Inr g' \<Longrightarrow> next_ref g' = next_ref g"
  by (auto simp: pass_go_def split: if_splits option.splits sum.splits)

lemma move_player_next_ref: "next_ref (snd (move_player nm n g)) = next_ref g"
proof (cases "map_of (players g) nm")
  case None
  then show ?thesis by (simp add: move_player_def)
next
  case (Some r)
  let ?g1 = "g\<lparr>heap := (heap g)(r := Player_move_player n (int (length (gameboard g))) (heap g r))\<rparr>"
  show ?thesis
  proof (cases "pass_go (get_position (heap g r)) (get_position (heap ?g1 r)) r ?g1")
    case (Inl e)
    then show ?thesis using Some by (simp add: move_player_def Let_def)
  next
    case (Inr g2)
    then show ?thesis
      using Some pass_go_next_ref[OF Inr] landing_next_ref[of _ r g2]
      by (simp add: move_player_def Let_def)
  qed
qed

lemma registry_ok_exec: "registry_ok g \<Longrightarrow> registry_ok (exec x g)"
proof (cases x)
  case (CreateSpaces p rs)
  then show "registry_ok g \<Longrightarrow> registry_ok (exec x g)"
    by (simp add: registry_ok_def create_spaces_snd)
next
  case (CreatePlayer nm bal)
  then show "registry_ok g \<Longrightarrow> registry_ok (exec x g)"
    by (simp add: registry_ok_create_player)
next
  case (BuySpace nm)
  then show "registry_ok g \<Longrightarrow> registry_ok (exec x g)"
    by (simp add: registry_ok_def buy_space_position buy_space_next_ref)
next
  case (MovePlayer nm n)
  then show "registry_ok g \<Longrightarrow> registry_ok (exec x g)"
    by (simp add: registry_ok_def move_player_same move_player_next_ref)
next
  case (RemovePlayer r)
  then show "registry_ok g \<Longrightarrow> registry_ok (exec x g)"
    by (simp add: registry_ok_def remove_player_players)
qed

text \<open>
  Every state reached from the initial state has a well-formed registry: the
  preconditions on the registry in the properties hold in all of them.
\<close>

lemma registry_ok_run: "registry_ok (run ops RealEstateGame_init)"
proof -
  have "registry_ok g \<Longrightarrow> registry_ok (run ops g)" for g
    unfolding run_def by (induction ops arbitrary: g) (simp_all add: registry_ok_exec)
  moreover have "registry_ok RealEstateGame_init"
    by (simp add: registry_ok_def RealEstateGame_init_def)
  ultimately show ?thesis by blast
qed

subsection \<open>Owners and the registry\<close>

lemma owners_registered_same:
  "gameboard g' = gameboard g \<Longrightarrow> players g' = players g \<Longrightarrow>
   owners_registered g' = owners_registered g"
  by (simp add: owners_registered_def)

lemma get_owner_clear_owner:
  "get_owner (clear_owner r space) = Inr (Some ow) \<Longrightarrow> get_owner space = Inr (Some ow)"
  by (cases space) (auto simp: clear_owner_def split: if_splits)

lemma owners_registered_cleared:
  assumes "owners_registered g" and "gameboard g' = map (clear_owner r) (gameboard g)"
    and "players g' = players g"
  shows "owners_registered g'"
  using assms by (auto simp: owners_registered_def dest: get_owner_clear_owner)

lemma owners_registered_remove_player:
  "owners_registered g \<Longrightarrow> owners_registered (remove_player r g)"
  by (rule owners_registered_cleared[where r = r]) (simp_all add: remove_player_def)

lemma owners_registered_create_spaces:
  "owners_registered g \<Longrightarrow> owners_registered (snd (create_spaces p rs g))"
  by (auto simp: owners_registered_def create_spaces_snd)

lemma owners_registered_create_player:
  assumes "owners_registered g" and "bal \<le> 0 \<or> map_of (players g) nm = None"
  shows "owners_registered (create_player nm bal g)"
proof (cases "bal \<le> 0")
  case True
  then show ?thesis using assms by (simp add: create_player_def)
next
  case False
  then have "dict_set (players g) nm (next_ref g) = players g @ [(nm, next_ref g)]"
    using assms(2) by (simp add: dict_set_fresh)
  then show ?thesis
    using False assms(1) by (auto simp: owners_registered_def create_player_def)
qed

lemma owners_registered_buy_space:
  assumes "owners_registered g"
  shows "owners_registered (snd (buy_space nm g))"
proof -
  have upd: "owners_registered (g\<lparr>gameboard := (gameboard g)[i := PropertySpace rent (Some r)], heap := h\<rparr>)"
    if "map_of (players g) nm = Some r" for i rent r h
  proof -
    have "r \<in> snd ` set (players g)" using map_of_SomeD[OF that] by force
    then have "\<forall>space \<in> set ((gameboard g)[i := PropertySpace rent (Some r)]).
        \<forall>ow. get_owner space = Inr (Some ow) \<longrightarrow> ow \<in> snd ` set (players g)"
      using assms by (intro set_update_all) (simp_all add: owners_registered_def)
    then show ?thesis by (simp add: owners_registered_def)
  qed
  show ?thesis
    using assms upd
    by (simp add: buy_space_def Let_def get_player_account_balance_def
        split: option.splits BoardSpace.splits)
qed

lemma pay_rent_board:
  "players (pay_rent r ow rent g) = players g
   \<and> (gameboard (pay_rent r ow rent g) = gameboard g
      \<or> gameboard (pay_rent r ow rent g) = map (clear_owner r) (gameboard g))"
  by (simp add: pay_rent_def remove_player_def Let_def)

lemma owners_registered_pay_rent:
  assumes "owners_registered g"
  shows "owners_registered (pay_rent r ow rent g)"
proof -
  have p: "players (pay_rent r ow rent g) = players g"
    using pay_rent_board[of r ow rent g] by simp
  from pay_rent_board[of r ow rent g]
  have "gameboard (pay_rent r ow rent g) = gameboard g
      \<or> gameboard (pay_rent r ow rent g) = map (clear_owner r) (gameboard g)"
    by simp
  then show ?thesis
  proof
    assume "gameboard (pay_rent r ow rent g) = gameboard g"
    then show ?thesis using assms p owners_registered_same by blast
  next
    assume "gameboard (pay_rent r ow rent g) = map (clear_owner r) (gameboard g)"
    with assms show ?thesis using p by (rule owners_registered_cleared)
  qed
qed

lemma owners_registered_landing:
  "owners_registered g \<Longrightarrow> owners_registered (snd (landing new r g))"
  by (simp add: landing_def owners_registered_pay_rent split: option.splits BoardSpace.splits)

lemma owners_registered_move_player:
  assumes "owners_registered g"
  shows "owners_registered (snd (move_player nm n g))"
proof (cases "map_of (players g) nm")
  case None
  then show ?thesis using assms by (simp add: move_player_def)
next
  case (Some r)
  let ?g1 = "g\<lparr>heap := (heap g)(r := Player_move_player n (int (length (gameboard g))) (heap g r))\<rparr>"
  have g1: "owners_registered ?g1" using assms by (simp add: owners_registered_def)
  show ?thesis
  proof (cases "pass_go (get_position (heap g r)) (get_position (heap ?g1 r)) r ?g1")
    case (Inl e)
    then show ?thesis using Some assms g1 by (simp add: move_player_def Let_def)
  next
    case (Inr g2)
    have "owners_registered g2"
      using pass_go_same[OF Inr] g1 by (simp add: owners_registered_def)
    then have "owners_registered (snd (landing (get_position (heap ?g1 r)) r g2))"
      by (rule owners_registered_landing)
    then show ?thesis using Some assms Inr by (simp add: move_player_def Let_def)
  qed
qed

lemma owners_registered_run:
  "owners_registered g \<Longrightarrow> fresh_names ops g \<Longrightarrow> owners_registered (run ops g)"
proof (induction ops arbitrary: g)
  case Nil
  then show ?case by (simp add: run_def)
next
  case (Cons x ops)
  have "owners_registered (exec x g)"
  proof (cases x)
    case (CreateSpaces p rs)
    then show ?thesis using Cons.prems by (simp add: owners_registered_create_spaces)
  next
    case (CreatePlayer nm bal)
    then show ?thesis using Cons.prems by (simp add: owners_registered_create_player)
  next
    case (BuySpace nm)
    then show ?thesis using Cons.prems by (simp add: owners_registered_buy_space)
  next
    case (MovePlayer nm n)
    then show ?thesis using Cons.prems by (simp add: owners_registered_move_player)
  next
    case (RemovePlayer r)
    then show ?thesis using Cons.prems by (simp add: owners_registered_remove_player)
  qed
  then have "owners_registered (run ops (exec x g))"
    using Cons.prems(2) by (intro Cons.IH) simp_all
  then show ?case by (simp add: run_def)
qed

lemma owners_solvent_create_spaces:
  "owners_solvent g \<Longrightarrow> owners_solvent (snd (create_spaces p rs g))"
  by (auto simp: owners_solvent_def create_spaces_snd)

lemma owners_solvent_create_player:
  "owners_solvent g \<Longrightarrow> owners_solvent (create_player nm bal g)"
  by (auto simp: owners_solvent_def create_player_def Player_init_def)

lemma clear_owner_other:
  "get_owner (clear_owner r space) = Inr (Some ow) \<Longrightarrow> ow \<noteq> r"
  by (cases space) (auto simp: clear_owner_def split: if_splits)

lemma owners_solvent_cleared:
  assumes "owners_solvent g" and "gameboard g' = map (clear_owner r) (gameboard g)"
    and "\<forall>x. x \<noteq> r \<longrightarrow> account_balance (heap g x) \<le> account_balance (heap g' x)"
  shows "owners_solvent g'"
  unfolding owners_solvent_def
proof (intro ballI allI impI)
  fix space ow
  assume "space \<in> set (gameboard g')" and ow: "get_owner space = Inr (Some ow)"
  then obtain old where old: "old \<in> set (gameboard g)" and sp: "space = clear_owner r old"
    using assms(2) by auto
  have "ow \<noteq> r" using ow sp clear_owner_other by blast
  moreover have "get_owner old = Inr (Some ow)" using ow sp get_owner_clear_owner by blast
  then have "0 < account_balance (heap g ow)" using assms(1) old by (simp add: owners_solvent_def)
  ultimately show "0 < account_balance (heap g' ow)" using assms(3) by force
qed

lemma owners_solvent_remove_player:
  assumes "owners_solvent g"
  shows "owners_solvent (remove_player r g)"
proof (rule owners_solvent_cleared[OF assms])
  show "gameboard (remove_player r g) = map (clear_owner r) (gameboard g)"
    by (simp add: remove_player_def)
  show "\<forall>x. x \<noteq> r \<longrightarrow> account_balance (heap g x) \<le> account_balance (heap (remove_player r g) x)"
    by (simp add: remove_player_def)
qed

lemma owners_solvent_buy_space:
  assumes "owners_solvent g"
  shows "owners_solvent (snd (buy_space nm g))"
proof -
  have upd: "owners_solvent
      (g\<lparr>gameboard := (gameboard g)[i := PropertySpace rent (Some r)],
         heap := (heap g)(r := sub_account_balance (rent * 5) (heap g r))\<rparr>)"
    if "rent * 5 < account_balance (heap g r)" for i rent r
  proof -
    let ?h = "(heap g)(r := sub_account_balance (rent * 5) (heap g r))"
    have r: "0 < account_balance (?h r)"
      using that by (simp add: sub_account_balance_def)
    have "\<forall>space \<in> set ((gameboard g)[i := PropertySpace rent (Some r)]).
        \<forall>ow. get_owner space = Inr (Some ow) \<longrightarrow> 0 < account_balance (?h ow)"
    proof (rule set_update_all)
      show "\<forall>space \<in> set (gameboard g). \<forall>ow. get_owner space = Inr (Some ow) \<longrightarrow> 0 < account_balance (?h ow)"
        using assms r by (auto simp: owners_solvent_def)
      show "\<forall>ow. get_owner (PropertySpace rent (Some r)) = Inr (Some ow) \<longrightarrow> 0 < account_balance (?h ow)"
        using r by simp
    qed
    then show ?thesis by (simp add: owners_solvent_def)
  qed
  show ?thesis
    using assms upd
    by (simp add: buy_space_def get_player_account_balance_def get_account_balance_def
        split: option.splits BoardSpace.splits)
qed

lemma pass_go_balances:
  assumes ok: "amounts_ok g" and pg: "pass_go old new r g = Inr g'"
  shows "gameboard g' = gameboard g
    \<and> (\<exists>p. 0 \<le> p \<and> (\<forall>x. account_balance (heap g' x) =
          account_balance (heap g x) + (if x = r then p else 0)))"
proof (cases "new < old")
  case False
  then have "g' = g" using pg by (simp add: pass_go_def)
  then show ?thesis by (intro conjI exI[of _ 0]) simp_all
next
  case True
  with pg obtain i where i: "list_index (gameboard g) 0 = Some i"
    by (auto simp: pass_go_def split: option.splits)
  with pg True obtain p where p': "get_payout_amount (gameboard g ! i) = Inr p"
    and g': "g' = g\<lparr>heap := (heap g)(r := add_account_balance p (heap g r))\<rparr>"
    by (auto simp: pass_go_def split: sum.splits)
  from p' have p: "gameboard g ! i = GoSpace p"
    by (cases "gameboard g ! i") simp_all
  from i have "i < length (gameboard g)" by (rule list_index_less)
  then have "space_ok (gameboard g ! i)" using ok by (simp add: amounts_ok_def)
  then have "0 \<le> p" using p by simp
  then show ?thesis using g' by (intro conjI exI[of _ p]) (simp_all add: add_account_balance_def)
qed

lemma owners_solvent_pay_rent:
  assumes ok: "amounts_ok g" and solvent: "owners_solvent g"
    and mover: "0 < account_balance (heap g r)" and other: "ow \<noteq> r"
    and owner: "0 < account_balance (heap g ow)"
    and rent: "0 \<le> rent" and inexact: "account_balance (heap g r) \<noteq> rent"
  shows "owners_solvent (pay_rent r ow rent g)"
proof (cases "account_balance (heap g r) < rent")
  case True
  show ?thesis
  proof (rule owners_solvent_cleared[OF solvent, where r = r])
    show "gameboard (pay_rent r ow rent g) = map (clear_owner r) (gameboard g)"
      by (simp add: pay_rent_bankrupt[OF True other])
    show "\<forall>x. x \<noteq> r \<longrightarrow> account_balance (heap g x) \<le> account_balance (heap (pay_rent r ow rent g) x)"
      using mover by (simp add: pay_rent_bankrupt[OF True other])
  qed
next
  case False
  then have ge: "rent \<le> account_balance (heap g r)" by simp
  then have gt: "rent < account_balance (heap g r)" using inexact by simp
  have "0 < account_balance (heap (pay_rent r ow rent g) x)"
    if "0 < account_balance (heap g x)" for x
    using that gt rent other by (auto simp: pay_rent_transfer[OF ge other])
  moreover have "gameboard (pay_rent r ow rent g) = gameboard g"
    by (simp add: pay_rent_transfer[OF ge other])
  ultimately show ?thesis using solvent by (simp add: owners_solvent_def)
qed

lemma owners_solvent_move_player:
  assumes ok: "amounts_ok g" and solvent: "owners_solvent g"
    and inexact: "\<not> pays_exact_rent nm n g"
  shows "owners_solvent (snd (move_player nm n g))"
proof (cases "map_of (players g) nm")
  case None
  then show ?thesis using solvent by (simp add: move_player_def)
next
  case (Some r)
  show ?thesis
  proof (cases "account_balance (heap g r) = 0 \<or> n < 1 \<or> 6 < n")
    case True
    then show ?thesis using Some solvent
      by (auto simp: move_player_def get_account_balance_def)
  next
    case False
    then have act: "account_balance (heap g r) \<noteq> 0" "\<not> n < 1" "\<not> 6 < n" by simp_all
    define g1 where "g1 = g\<lparr>heap := (heap g)(r :=
        Player_move_player n (int (length (gameboard g))) (heap g r))\<rparr>"
    define new where "new = get_position (heap g1 r)"
    have ok1: "amounts_ok g1" unfolding g1_def by (rule amounts_ok_position[OF ok])
    have same1: "gameboard g1 = gameboard g"
      "\<And>x. account_balance (heap g1 x) = account_balance (heap g x)"
      by (simp_all add: g1_def Player_move_player_def Let_def)
    have solvent1: "owners_solvent g1" using solvent same1 by (simp add: owners_solvent_def)
    have mv: "move_player nm n g =
        (case pass_go (get_position (heap g r)) new r g1 of
           Inl e \<Rightarrow> (Inl e, g1) | Inr g2 \<Rightarrow> landing new r g2)"
      unfolding g1_def new_def using Some act
      by (simp add: move_player_def Let_def get_account_balance_def)
    have ex: "pays_exact_rent nm n g =
        (case pass_go (get_position (heap g r)) new r g1 of
           Inl e \<Rightarrow> False
         | Inr g2 \<Rightarrow>
             (case list_index (gameboard g2) new of
                None \<Rightarrow> False
              | Some i \<Rightarrow>
                  (case gameboard g2 ! i of
                     GoSpace _ \<Rightarrow> False
                   | PropertySpace rent owner \<Rightarrow>
                       (case owner of
                          None \<Rightarrow> False
                        | Some property_owner \<Rightarrow>
                            property_owner \<noteq> r \<and> get_account_balance (heap g2 r) = rent))))"
      unfolding g1_def new_def using Some act
      by (simp add: pays_exact_rent_def Let_def get_account_balance_def)
    show ?thesis
    proof (cases "pass_go (get_position (heap g r)) new r g1")
      case (Inl e)
      then show ?thesis using mv solvent1 by simp
    next
      case (Inr g2)
      have ok2: "amounts_ok g2" using ok1 Inr by (rule amounts_ok_pass_go)
      from pass_go_balances[OF ok1 Inr] obtain p where board2: "gameboard g2 = gameboard g1"
        and p: "0 \<le> p"
        and bal2: "\<And>x. account_balance (heap g2 x) = account_balance (heap g1 x) + (if x = r then p else 0)"
        by blast
      have up: "account_balance (heap g x) \<le> account_balance (heap g2 x)" for x
        using bal2[of x] same1(2)[of x] p by simp
      have solvent2: "owners_solvent g2"
        unfolding owners_solvent_def
      proof (intro ballI allI impI)
        fix space ow
        assume "space \<in> set (gameboard g2)" and "get_owner space = Inr (Some ow)"
        then have "0 < account_balance (heap g ow)"
          using solvent board2 same1(1) by (simp add: owners_solvent_def)
        then show "0 < account_balance (heap g2 ow)" using up[of ow] by simp
      qed
      have "0 \<le> account_balance (heap g r)" using ok by (simp add: amounts_ok_def)
      then have mover: "0 < account_balance (heap g2 r)" using act(1) up[of r] by simp
      have res: "snd (move_player nm n g) = snd (landing new r g2)"
        using mv Inr by simp
      show ?thesis
      proof (cases "list_index (gameboard g2) new")
        case None
        then show ?thesis using res solvent2 by (simp add: landing_def)
      next
        case idx: (Some i)
        then have i: "i < length (gameboard g2)" by (rule list_index_less)
        show ?thesis
        proof (cases "gameboard g2 ! i")
          case (GoSpace q)
          then show ?thesis using res solvent2 idx by (simp add: landing_def)
        next
          case (PropertySpace rent owner)
          show ?thesis
          proof (cases owner)
            case None
            then show ?thesis using res solvent2 idx PropertySpace by (simp add: landing_def)
          next
            case (Some ow)
            show ?thesis
            proof (cases "ow = r")
              case True
              then show ?thesis using res solvent2 idx PropertySpace Some by (simp add: landing_def)
            next
              case False
              have sp: "gameboard g2 ! i \<in> set (gameboard g2)" using i by simp
              then have "space_ok (gameboard g2 ! i)" using ok2 by (simp add: amounts_ok_def)
              then have rent: "0 \<le> rent" using PropertySpace by simp
              have "get_owner (gameboard g2 ! i) = Inr (Some ow)" using PropertySpace Some by simp
              then have owner: "0 < account_balance (heap g2 ow)"
                using solvent2 sp by (auto simp: owners_solvent_def)
              have "account_balance (heap g2 r) \<noteq> rent"
                using inexact ex Inr idx PropertySpace Some False
                by (simp add: get_account_balance_def)
              then have "owners_solvent (pay_rent r ow rent g2)"
                using ok2 solvent2 mover False owner rent by (intro owners_solvent_pay_rent) simp_all
              then show ?thesis
                using res idx PropertySpace Some False by (simp add: landing_def)
            qed
          qed
        qed
      qed
    qed
  qed
qed

lemma owners_solvent_run:
  "amounts_ok g \<Longrightarrow> owners_solvent g \<Longrightarrow> no_exact_rent ops g \<Longrightarrow> \<forall>x \<in> set ops. op_ok x \<Longrightarrow>
   owners_solvent (run ops g)"
proof (induction ops arbitrary: g)
  case Nil
  then show ?case by (simp add: run_def)
next
  case (Cons x ops)
  have ok: "amounts_ok (exec x g)"
    using Cons.prems(1,4) by (simp add: amounts_ok_exec)
  have "owners_solvent (exec x g)"
  proof (cases x)
    case (CreateSpaces p rs)
    then show ?thesis using Cons.prems(2) by (simp add: owners_solvent_create_spaces)
  next
    case (CreatePlayer nm bal)
    then show ?thesis using Cons.prems(2) by (simp add: owners_solvent_create_player)
  next
    case (BuySpace nm)
    then show ?thesis using Cons.prems(2) by (simp add: owners_solvent_buy_space)
  next
    case (MovePlayer nm n)
    then show ?thesis using Cons.prems(1,2,3) by (simp add: owners_solvent_move_player)
  next
    case (RemovePlayer r)
    then show ?thesis using Cons.prems(2) by (simp add: owners_solvent_remove_player)
  qed
  then have "owners_solvent (run ops (exec x g))"
    using ok Cons.prems(3,4) by (intro Cons.IH) simp_all
  then show ?case by (simp add: run_def)
qed

text \<open>
  C8, as amended: in every state reached from the initial state by engine calls, each
  space has at most one owner, and the owner of a property space, when set, is
  \<^item> a currently registered player, provided that \<open>create_player\<close> never replaced a
    registered name;
  \<^item> an object with a balance that is not zero, provided that every call of
    \<open>create_spaces\<close> passed a payout and rents that are not negative and that no move
    paid a rent exactly equal to the mover's balance: a player whose balance is below
    the rent loses every space in \<open>remove_player\<close>.
  What a rent exactly equal to the balance leaves behind is not part of the statement.
\<close>

theorem owners_registered_and_solvent:
  "\<forall>space \<in> set (gameboard (run ops RealEstateGame_init)).
     (\<forall>ow. get_owner space = Inr (Some ow) \<longrightarrow>
        (fresh_names ops RealEstateGame_init \<longrightarrow>
           (\<exists>nm. map_of (players (run ops RealEstateGame_init)) nm = Some ow))
        \<and> (no_exact_rent ops RealEstateGame_init \<and> (\<forall>x \<in> set ops. op_ok x) \<longrightarrow>
             account_balance (heap (run ops RealEstateGame_init) ow) \<noteq> 0))
     \<and> (\<forall>a b. get_owner space = Inr (Some a) \<and> get_owner space = Inr (Some b) \<longrightarrow> a = b)"
proof -
  let ?g = "run ops RealEstateGame_init"
  have reg: "\<exists>nm. map_of (players ?g) nm = Some ow"
    if "fresh_names ops RealEstateGame_init" and "space \<in> set (gameboard ?g)"
      and "get_owner space = Inr (Some ow)" for space ow
  proof -
    have "owners_registered RealEstateGame_init"
      by (simp add: owners_registered_def RealEstateGame_init_def)
    then have "owners_registered ?g" using that(1) by (rule owners_registered_run)
    then have "ow \<in> snd ` set (players ?g)"
      using that(2,3) by (simp add: owners_registered_def)
    moreover have "distinct (map fst (players ?g))"
      using registry_ok_run[of ops] by (simp add: registry_ok_def)
    ultimately show ?thesis by (auto intro: map_of_is_SomeI)
  qed
  have sol: "account_balance (heap ?g ow) \<noteq> 0"
    if "no_exact_rent ops RealEstateGame_init" and "\<forall>x \<in> set ops. op_ok x"
      and "space \<in> set (gameboard ?g)" and "get_owner space = Inr (Some ow)" for space ow
  proof -
    have "owners_solvent RealEstateGame_init"
      by (simp add: owners_solvent_def RealEstateGame_init_def)
    with amounts_ok_init have "owners_solvent ?g"
      using that(1,2) by (rule owners_solvent_run)
    then have "0 < account_balance (heap ?g ow)"
      using that(3,4) by (simp add: owners_solvent_def)
    then show ?thesis by simp
  qed
  show ?thesis using reg sol by auto
qed

text \<open>
  C8 as stated fails when \<open>create_player\<close> replaces a registered name: A's first
  object still owns space 1, and no name of the registry denotes it. It also fails for a
  payout that is negative: A owns space 1 and passes GO with a balance of 50 on a board
  whose GO space pays -50.
\<close>

theorem owners_registered_and_solvent_counterexample:
  "leak_state = run leak_ops RealEstateGame_init
   \<and> players leak_state = [(''A'', 2), (''B'', 1)]
   \<and> gameboard leak_state ! 1 = PropertySpace 10 (Some 0)
   \<and> PropertySpace 10 (Some 0) \<in> set (gameboard leak_state)
   \<and> \<not> (\<exists>nm. map_of (players leak_state) nm = Some 0)
   \<and> fresh_names drained_ops RealEstateGame_init
   \<and> no_exact_rent drained_ops RealEstateGame_init
   \<and> map_of (players (run drained_ops RealEstateGame_init)) ''A'' = Some 0
   \<and> gameboard (run drained_ops RealEstateGame_init) ! 1 = PropertySpace 10 (Some 0)
   \<and> account_balance (heap (run drained_ops RealEstateGame_init) 0) = 0"
proof -
  have ps: "players leak_state = [(''A'', 2), (''B'', 1)]" by code_simp
  have sp: "gameboard leak_state ! 1 = PropertySpace 10 (Some 0)" by code_simp
  have len: "length (gameboard leak_state) = 25" by code_simp
  have "gameboard leak_state ! 1 \<in> set (gameboard leak_state)"
    using len by (intro nth_mem) simp
  then have m: "PropertySpace 10 (Some 0) \<in> set (gameboard leak_state)" using sp by simp
  have no: "\<not> (\<exists>nm. map_of (players leak_state) nm = Some 0)"
    using ps by simp
  have f: "fresh_names drained_ops RealEstateGame_init" by code_simp
  have e: "no_exact_rent drained_ops RealEstateGame_init" by code_simp
  have a: "map_of (players (run drained_ops RealEstateGame_init)) ''A'' = Some 0" by code_simp
  have s: "gameboard (run drained_ops RealEstateGame_init) ! 1 = PropertySpace 10 (Some 0)"
    by code_simp
  have z: "account_balance (heap (run drained_ops RealEstateGame_init) 0) = 0" by code_simp
  from ps sp m no f e a s z show ?thesis by (simp add: leak_state_def)
qed

text \<open>
  B, the owner of space 2, lands on A's space 3 with 10 against a rent of 20: B is left
  with nothing and space 2 has no owner; the owner of space 3 is the registered A, with a
  balance of 110.
\<close>

theorem owners_registered_and_solvent_witness:
  "fresh_names bankrupt_ops RealEstateGame_init
   \<and> no_exact_rent bankrupt_ops RealEstateGame_init
   \<and> list_all op_ok bankrupt_ops
   \<and> gameboard (run bankrupt_ops RealEstateGame_init) ! 3 = PropertySpace 20 (Some 0)
   \<and> gameboard (run bankrupt_ops RealEstateGame_init) ! 2 = PropertySpace 10 None
   \<and> account_balance (heap (run bankrupt_ops RealEstateGame_init) 1) = 0
   \<and> (\<exists>nm. map_of (players (run bankrupt_ops RealEstateGame_init)) nm = Some 0)
   \<and> account_balance (heap (run bankrupt_ops RealEstateGame_init) 0) \<noteq> 0"
proof -
  let ?g = "run bankrupt_ops RealEstateGame_init"
  have f: "fresh_names bankrupt_ops RealEstateGame_init" by code_simp
  have e: "no_exact_rent bankrupt_ops RealEstateGame_init" by code_simp
  have ok: "\<forall>x \<in> set bankrupt_ops. op_ok x"
    by (simp add: bankrupt_ops_def rent_ops_def)
  have sp3: "gameboard ?g ! 3 = PropertySpace 20 (Some 0)" by code_simp
  have sp2: "gameboard ?g ! 2 = PropertySpace 10 None" by code_simp
  have b: "account_balance (heap ?g 1) = 0" by code_simp
  have len: "length (gameboard ?g) = 25" by code_simp
  have "gameboard ?g ! 3 \<in> set (gameboard ?g)"
    using len by (intro nth_mem) simp
  then have m: "PropertySpace 20 (Some 0) \<in> set (gameboard ?g)" using sp3 by simp
  have o: "get_owner (PropertySpace 20 (Some 0)) = Inr (Some 0)" by simp
  from owners_registered_and_solvent[of bankrupt_ops] m o f e ok
  have "(\<exists>nm. map_of (players ?g) nm = Some 0) \<and> account_balance (heap ?g 0) \<noteq> 0"
    by blast
  moreover from ok have "list_all op_ok bankrupt_ops" by (simp add: list_all_iff)
  ultimately show ?thesis using f e sp3 sp2 b by blast
qed

subsection \<open>The board starts with GO in every reachable state\<close>

lemma board_ok_cases:
  "board_ok g \<longleftrightarrow> gameboard g = [] \<or> (\<exists>p spaces. gameboard g = GoSpace p # spaces)"
proof (cases "gameboard g")
  case Nil
  then show ?thesis by (simp add: board_ok_def)
next
  case (Cons space spaces)
  then show ?thesis by (cases space) (simp_all add: board_ok_def)
qed

lemma clear_owner_go: "clear_owner r (GoSpace p) = GoSpace p"
  by (simp add: clear_owner_def)

lemma board_ok_cleared:
  assumes "board_ok g" and "gameboard g' = map (clear_owner r) (gameboard g)"
  shows "board_ok g'"
proof -
  from assms(1) have "gameboard g = [] \<or> (\<exists>p spaces. gameboard g = GoSpace p # spaces)"
    by (simp add: board_ok_cases)
  then have "gameboard g' = [] \<or> (\<exists>p spaces. gameboard g' = GoSpace p # spaces)"
    using assms(2) by (auto simp: clear_owner_go)
  then show ?thesis by (simp add: board_ok_cases)
qed

lemma board_ok_same: "gameboard g' = gameboard g \<Longrightarrow> board_ok g' = board_ok g"
  by (simp add: board_ok_def)

lemma board_ok_create_spaces:
  assumes "board_ok g"
  shows "board_ok (snd (create_spaces p rs g))"
proof -
  from assms have "gameboard g = [] \<or> (\<exists>q spaces. gameboard g = GoSpace q # spaces)"
    by (simp add: board_ok_cases)
  then show ?thesis
    by (auto simp: board_ok_cases create_spaces_snd)
qed

lemma board_ok_buy_space:
  assumes "board_ok g"
  shows "board_ok (snd (buy_space nm g))"
proof -
  have upd: "board_ok (g\<lparr>gameboard := (gameboard g)[i := PropertySpace rent x], heap := h\<rparr>)"
    if "gameboard g ! i = PropertySpace rent y" for i rent x y h
  proof -
    from assms have "gameboard g = [] \<or> (\<exists>q spaces. gameboard g = GoSpace q # spaces)"
      by (simp add: board_ok_cases)
    then show ?thesis
    proof
      assume "gameboard g = []"
      then show ?thesis by (simp add: board_ok_cases)
    next
      assume "\<exists>q spaces. gameboard g = GoSpace q # spaces"
      then obtain q spaces where q: "gameboard g = GoSpace q # spaces" by blast
      have "i \<noteq> 0" using that q by (cases i) simp_all
      then obtain j where "i = Suc j" by (cases i) simp_all
      then show ?thesis using q by (simp add: board_ok_cases)
    qed
  qed
  show ?thesis
    using assms upd
    by (simp add: buy_space_def Let_def get_player_account_balance_def
        split: option.splits BoardSpace.splits)
qed

lemma board_ok_remove_player: "board_ok g \<Longrightarrow> board_ok (remove_player r g)"
  by (rule board_ok_cleared[where r = r]) (simp_all add: remove_player_def)

lemma board_ok_pay_rent:
  assumes "board_ok g"
  shows "board_ok (pay_rent r ow rent g)"
proof -
  from pay_rent_board[of r ow rent g]
  have "gameboard (pay_rent r ow rent g) = gameboard g
      \<or> gameboard (pay_rent r ow rent g) = map (clear_owner r) (gameboard g)"
    by simp
  then show ?thesis
  proof
    assume "gameboard (pay_rent r ow rent g) = gameboard g"
    then show ?thesis using assms by (simp add: board_ok_def)
  next
    assume "gameboard (pay_rent r ow rent g) = map (clear_owner r) (gameboard g)"
    with assms show ?thesis by (rule board_ok_cleared)
  qed
qed

lemma board_ok_landing: "board_ok g \<Longrightarrow> board_ok (snd (landing new r g))"
  by (simp add: landing_def board_ok_pay_rent split: option.splits BoardSpace.splits)

lemma board_ok_move_player:
  assumes "board_ok g"
  shows "board_ok (snd (move_player nm n g))"
proof (cases "map_of (players g) nm")
  case None
  then show ?thesis using assms by (simp add: move_player_def)
next
  case (Some r)
  let ?g1 = "g\<lparr>heap := (heap g)(r := Player_move_player n (int (length (gameboard g))) (heap g r))\<rparr>"
  have g1: "board_ok ?g1" using assms by (simp add: board_ok_def)
  show ?thesis
  proof (cases "pass_go (get_position (heap g r)) (get_position (heap ?g1 r)) r ?g1")
    case (Inl e)
    then show ?thesis using Some assms g1 by (simp add: move_player_def Let_def)
  next
    case (Inr g2)
    have "board_ok g2"
      using pass_go_same[OF Inr] g1 by (simp add: board_ok_def)
    then have "board_ok (snd (landing (get_position (heap ?g1 r)) r g2))"
      by (rule board_ok_landing)
    then show ?thesis using Some assms Inr by (simp add: move_player_def Let_def)
  qed
qed

lemma board_ok_exec: "board_ok g \<Longrightarrow> board_ok (exec x g)"
  by (cases x)
     (simp_all add: board_ok_create_spaces board_ok_buy_space board_ok_move_player
        board_ok_remove_player, simp add: board_ok_def create_player_def)

lemma board_ok_run: "board_ok (run ops RealEstateGame_init)"
proof -
  have "board_ok g \<Longrightarrow> board_ok (run ops g)" for g
    unfolding run_def by (induction ops arbitrary: g) (simp_all add: board_ok_exec)
  moreover have "board_ok RealEstateGame_init"
    by (simp add: board_ok_def RealEstateGame_init_def)
  ultimately show ?thesis by blast
qed

text \<open>
  Every state reached from the initial state has an empty board or one that starts with
  the GO space: the precondition on the board in the properties of \<open>move_player\<close> holds
  as soon as \<open>create_spaces\<close> has been called.
\<close>

lemma board_starts_with_go:
  "gameboard (run ops RealEstateGame_init) = []
   \<or> (\<exists>go_payout spaces. gameboard (run ops RealEstateGame_init) = GoSpace go_payout # spaces)"
  using board_ok_run[of ops] by (simp add: board_ok_cases)

subsection \<open>A player left with nothing who still owns a space\<close>

text \<open>
  A rent equal to the balance is paid in full by the ordinary transfer, not by the
  bankruptcy (the test of the source is \<^verbatim>\<open>balance < rent\<close>): B is left with a balance of
  0 and still owns space 2, although the header of the source says that a player out of
  money cannot own spaces.
\<close>

lemma exact_rent_leaves_owner:
  "map_of (players exact_rent_state) ''B'' = Some 1
   \<and> account_balance (heap exact_rent_state 1) = 0
   \<and> gameboard exact_rent_state ! 2 = PropertySpace 10 (Some 1)"
  by code_simp

end
